(* ===== verification/Grid_Prelude.thy ===== *)
theory Grid_Prelude
  imports Main "HOL-Library.Word" "HOL-Library.Signed_Division"
begin

text \<open>
  Shared vocabulary of the development: the machine types of the 3DS build of
  Universal-Updater (32-bit \<open>int\<close> and \<open>size_t\<close>, \<open>uint8_t\<close>, \<open>u16\<close>), the
  C conversions the grid code performs implicitly (\<open>(int)entries.size()\<close>,
  \<open>entries.size() - 1\<close> stored into an \<open>int\<close>), C's truncating division on
  \<open>int\<close> (\<open>sdiv\<close>/\<open>smod\<close> of HOL-Library.Signed_Division), and the arithmetic
  facts on grid rows and columns that the component proofs share.
\<close>

unbundle bit_operations_syntax

named_theorems grid_simps \<open>rewrite rules shared by the grid proofs\<close>

type_synonym u8 = "8 word"
type_synonym u16 = "16 word"
type_synonym u32 = "32 word"

text \<open>
  \<open>size_t\<close> on the ARM11 target is 32 bits wide; \<open>int\<close> is 32 bits wide as
  well. C \<open>int\<close> values are modelled as HOL \<open>int\<close> (the grid code never
  computes beyond a few units past the entry count); values of type
  \<open>size_t\<close> are \<open>u32\<close>, so that the unsigned comparison \<open>entries.size() > 15\<close>
  and the casts from \<open>size_t\<close> to \<open>int\<close> are the machine's.
\<close>

type_synonym size_t = u32

definition size_of_list :: "'a list \<Rightarrow> size_t" where
  "size_of_list xs = word_of_nat (length xs)"

definition int_of_size :: "size_t \<Rightarrow> int" where
  "int_of_size sz = sint sz"

subsection \<open>Signed and unsigned readings of a 32-bit word\<close>

lemma sint_nonneg_eq_uint:
  assumes "0 \<le> sint (w::u32)"
  shows "sint w = uint w"
proof -
  have eq: "sint w = uint w - 2 ^ 32 * of_bool (bit (uint w) 31)"
    using bintr_uint [of 32 w] by (simp add: sint_uint signed_take_bit_eq_take_bit_minus)
  have "uint w < 2 ^ 32" using uint_bounded [of w] by simp
  with assms eq have "\<not> bit (uint w) 31" by (cases "bit (uint w) 31") simp_all
  with eq show ?thesis by simp
qed

lemma size_gt_iff_int [grid_simps]:
  "0 \<le> int_of_size sz \<Longrightarrow> ((k::u32) < sz) = (uint k < int_of_size sz)"
  by (simp add: int_of_size_def sint_nonneg_eq_uint word_less_def)

lemma size_le_iff_int:
  "0 \<le> int_of_size sz \<Longrightarrow> (sz \<le> (k::u32)) = (int_of_size sz \<le> uint k)"
  by (simp add: int_of_size_def sint_nonneg_eq_uint word_le_def)

lemma size_minus_one_int [grid_simps]:
  "0 < int_of_size sz \<Longrightarrow> int_of_size (sz - 1) = int_of_size sz - 1"
proof -
  assume pos: "0 < int_of_size sz"
  have "sint sz < 2 ^ 31" using sint_lt [of sz] by simp
  with pos show ?thesis
    by (simp add: int_of_size_def sint_word_diff signed_take_bit_int_eq_self)
qed

lemma int_of_size_zero [grid_simps]: "int_of_size 0 = 0"
  by (simp add: int_of_size_def)

lemma int_of_size_list:
  "length xs < 2 ^ 31 \<Longrightarrow> int_of_size (size_of_list xs) = int (length xs)"
  by (simp add: int_of_size_def size_of_list_def signed_of_nat signed_take_bit_int_eq_self)

lemma int_of_size_nonneg_zero:
  "int_of_size sz = 0 \<Longrightarrow> sz = 0"
  unfolding int_of_size_def by (metis signed_word_eqI signed_0)

subsection \<open>C division on non-negative operands\<close>

text \<open>
  C rounds \<open>/\<close> towards zero and gives \<open>%\<close> the sign of the dividend; on
  non-negative operands this agrees with HOL's \<open>div\<close> and \<open>mod\<close>.
\<close>

lemma sdiv_nonneg [grid_simps]: "0 \<le> (k::int) \<Longrightarrow> 0 < l \<Longrightarrow> k sdiv l = k div l"
  by (auto simp: signed_divide_int_eq_divide_int sgn_if)

lemma smod_nonneg [grid_simps]: "0 \<le> (k::int) \<Longrightarrow> 0 < l \<Longrightarrow> k smod l = k mod l"
  by (auto simp: signed_modulo_int_eq_modulo_int sgn_if)

subsection \<open>Rows and columns of a five-column grid\<close>

lemma row_of_cell [grid_simps]:
  "0 \<le> (b::int) \<Longrightarrow> b < 5 \<Longrightarrow> (5 * r + b) div 5 = r"
  by simp

lemma col_of_cell [grid_simps]:
  "0 \<le> (b::int) \<Longrightarrow> b < 5 \<Longrightarrow> (5 * r + b) mod 5 = b"
  by simp

subsection \<open>Lists of draw calls\<close>

lemma concat_map_upt_single:
  "a \<le> e \<Longrightarrow> e < c \<Longrightarrow> concat (map (\<lambda>k. if k = e then f k else []) [a..<c]) = f e"
proof (induction c)
  case 0
  then show ?case by simp
next
  case (Suc c)
  show ?case
  proof (cases "e = c")
    case True
    have "concat (map (\<lambda>k. if k = e then f k else []) [a..<c]) = []"
      using True by (induction c) auto
    with True Suc.prems show ?thesis by simp
  next
    case False
    with Suc show ?thesis by simp
  qed
qed

end
