(* ===== verification/Grid_State.thy ===== *)
theory Grid_State
  imports Grid_Prelude
begin

text \<open>
  The catalog view state. The grid code reads and writes three integer fields of
  the \<open>Store\<close> object through \<open>GetBox\<close>/\<open>SetBox\<close>, \<open>GetEntry\<close>/\<open>SetEntry\<close>
  and \<open>GetScreenIndx\<close>/\<open>SetScreenIndx\<close>: the highlighted cell of the
  3\<open>\<times>\<close>5 grid, the absolute index of the selected entry, and the index of the
  first visible grid row. \<open>DrawGrid\<close> shows entry \<open>5 * screenIndx + i\<close> in
  cell \<open>i\<close>, so the spec's \<open>pageOffset\<close> is \<open>5 * screenIndx\<close>. This theory
  holds the state, the session's start state and the well-formedness invariant
  that every navigation step keeps.
\<close>

record store =
  box :: int
  entry :: int
  screen_indx :: int

definition init_store :: store where
  "init_store = \<lparr>box = 0, entry = 0, screen_indx = 0\<rparr>"

definition page_offset :: "store \<Rightarrow> int" where
  "page_offset s = 5 * screen_indx s"

text \<open>
  The invariant, relative to the current entry count \<open>sz\<close> (a \<open>size_t\<close>):
  the cell lies in the grid, the first visible row is not negative, the cell and
  the row together locate the selected entry, and the selected entry exists
  (or, for an empty catalog, the state is the start state's position 0).
\<close>

definition grid_inv :: "size_t \<Rightarrow> store \<Rightarrow> bool" where
  "grid_inv sz s \<longleftrightarrow>
     0 \<le> box s \<and> box s \<le> 14 \<and> 0 \<le> screen_indx s \<and>
     entry s = 5 * screen_indx s + box s \<and>
     ((sz = 0 \<and> entry s = 0) \<or> entry s < int_of_size sz)"

text \<open>
  The part of the invariant that does not mention the catalog: spec section 3's
  single invariant \<open>pageOffset + cursorCell = selectedIndex\<close> with the cell in
  the grid and the window not above the catalog. It survives a catalog that
  shrinks between frames; the rest of \<open>grid_inv\<close> may not.
\<close>

definition view_consistent :: "store \<Rightarrow> bool" where
  "view_consistent s \<longleftrightarrow>
     0 \<le> box s \<and> box s \<le> 14 \<and> 0 \<le> screen_indx s \<and> entry s = 5 * screen_indx s + box s"

lemma grid_inv_init:
  "0 \<le> int_of_size sz \<Longrightarrow> grid_inv sz init_store"
  by (auto simp: grid_inv_def init_store_def dest: int_of_size_nonneg_zero)

lemma grid_inv_size_nonneg: "grid_inv sz s \<Longrightarrow> 0 \<le> int_of_size sz"
  by (cases "sz = 0") (auto simp: grid_inv_def int_of_size_zero)

lemma grid_inv_view_consistent:
  "grid_inv sz s \<longleftrightarrow> view_consistent s \<and> ((sz = 0 \<and> entry s = 0) \<or> entry s < int_of_size sz)"
  by (auto simp: grid_inv_def view_consistent_def)

end
