(* ===== verification/Grid_Spec.thy ===== *)
theory Grid_Spec
  imports Grid_State
begin

text \<open>
  The contract of the navigation controller, stated on the selected index
  alone (spec.md, section 4.2) and on the visible window (sections 3 and 4.3).
  Nothing here mentions cells or setter calls: these definitions are what the
  handlers of \<open>Grid_Nav\<close> are proved to implement.

  On the selection, for a catalog of \<open>n\<close> entries:
  \<^item> Right advances by one unless the last entry is selected;
  \<^item> Left retreats by one unless the first entry is selected;
  \<^item> Up retreats by a row when there is a row above;
  \<^item> Down advances by a row when the entry a row below exists; from the bottom
    row of the window it otherwise jumps to the last entry.
\<close>

definition sel_right :: "int \<Rightarrow> int \<Rightarrow> int" where
  "sel_right n e = (if e < n - 1 then e + 1 else e)"

definition sel_left :: "int \<Rightarrow> int" where
  "sel_left e = (if 0 < e then e - 1 else e)"

definition sel_up :: "int \<Rightarrow> int" where
  "sel_up e = (if 5 \<le> e then e - 5 else e)"

definition sel_down :: "int \<Rightarrow> bool \<Rightarrow> int \<Rightarrow> int" where
  "sel_down n bottom e =
     (if bottom then (if e < n - 1 then min (e + 5) (n - 1) else e)
      else if e + 5 < n then e + 5 else e)"

text \<open>
  The window: entry \<open>e\<close> is on screen when it lies in the fifteen entries that
  start at row \<open>r\<close>. A step scrolls well when it moves the window by at most one
  row, and only when the new selection would otherwise be off screen.
\<close>

definition visible :: "int \<Rightarrow> int \<Rightarrow> bool" where
  "visible r e \<longleftrightarrow> 5 * r \<le> e \<and> e < 5 * r + 15"

definition scroll_ok :: "store \<Rightarrow> store \<Rightarrow> bool" where
  "scroll_ok s s' \<longleftrightarrow>
     \<bar>screen_indx s' - screen_indx s\<bar> \<le> 1 \<and>
     (screen_indx s' = screen_indx s \<or> \<not> visible (screen_indx s) (entry s'))"

end
