(* ===== verification/Grid_Nav.thy ===== *)
theory Grid_Nav
  imports Grid_Spec
begin

text \<open>
  The navigation controller: the four directional branches of
  \<open>StoreUtils::GridLogic\<close> (src/source/store/grid.cpp), one definition each,
  with the source's guards and the source's order of setter calls. Each takes
  the entry count as the \<open>size_t\<close> \<open>entries.size()\<close> (the code reads it
  afresh on every call) and returns the updated store. \<open>KEY_LEFT\<close> and
  \<open>KEY_UP\<close> never read the entry count.
\<close>

definition key_down :: "size_t \<Rightarrow> store \<Rightarrow> store" where
  "key_down sz s =
     (if box s > 9 then
        (if entry s + 5 < int_of_size sz - 1 then
           (let s1 = s\<lparr>entry := entry s + 5\<rparr> in
            if 15 < sz then s1\<lparr>screen_indx := entry s1 sdiv 5 - 2\<rparr> else s1)
         else if entry s < int_of_size sz - 1 then
           (let s1 = s\<lparr>entry := int_of_size (sz - 1)\<rparr>;
                s2 = s1\<lparr>box := 10 + entry s1 smod 5\<rparr> in
            if 15 < sz then s2\<lparr>screen_indx := entry s2 sdiv 5 - 2\<rparr> else s2)
         else s)
      else if entry s + 5 < int_of_size sz then
        s\<lparr>box := box s + 5, entry := entry s + 5\<rparr>
      else s)"

definition key_right :: "size_t \<Rightarrow> store \<Rightarrow> store" where
  "key_right sz s =
     (if entry s < int_of_size sz - 1 then
        (if box s < 14 then s\<lparr>box := box s + 1, entry := entry s + 1\<rparr>
         else
           (let s1 = s\<lparr>box := 10, entry := entry s + 1\<rparr> in
            s1\<lparr>screen_indx := entry s1 sdiv 5 - 2\<rparr>))
      else s)"

definition key_left :: "store \<Rightarrow> store" where
  "key_left s =
     (if entry s > 0 then
        (if box s > 0 then s\<lparr>box := box s - 1, entry := entry s - 1\<rparr>
         else
           (let s1 = s\<lparr>box := 4, entry := entry s - 1\<rparr> in
            s1\<lparr>screen_indx := entry s1 sdiv 5\<rparr>))
      else s)"

definition key_up :: "store \<Rightarrow> store" where
  "key_up s =
     (if box s < 5 then
        (if entry s > 4 then
           (let s1 = s\<lparr>entry := entry s - 5\<rparr> in
            s1\<lparr>screen_indx := entry s1 sdiv 5\<rparr>)
         else s)
      else s\<lparr>box := box s - 5, entry := entry s - 5\<rparr>)"

lemmas nav_defs = key_down_def key_right_def key_left_def key_up_def

subsection \<open>Each handler keeps the invariant\<close>

lemma key_down_inv: "grid_inv sz s \<Longrightarrow> grid_inv sz (key_down sz s)"
  by (auto simp: key_down_def grid_inv_def Let_def grid_simps) presburger+

lemma key_right_inv: "grid_inv sz s \<Longrightarrow> grid_inv sz (key_right sz s)"
  by (auto simp: key_right_def grid_inv_def Let_def grid_simps)

lemma key_left_inv: "grid_inv sz s \<Longrightarrow> grid_inv sz (key_left s)"
  by (auto simp: key_left_def grid_inv_def Let_def grid_simps) presburger+

lemma key_up_inv: "grid_inv sz s \<Longrightarrow> grid_inv sz (key_up s)"
  by (auto simp: key_up_def grid_inv_def Let_def grid_simps) presburger+

text \<open>
  C1. Every directional handler of \<open>GridLogic\<close> keeps the view-state
  invariant: the cell stays in the 15-cell grid, the first visible row stays
  non-negative, \<open>5 * screenIndx + box = entry\<close> keeps holding, and the selected
  entry keeps existing.
\<close>

lemma nav_preserves_inv:
  assumes "grid_inv sz s"
  shows "grid_inv sz (key_down sz s) \<and> grid_inv sz (key_right sz s) \<and>
         grid_inv sz (key_left s) \<and> grid_inv sz (key_up s)"
  using assms key_down_inv key_right_inv key_left_inv key_up_inv by blast

lemma nav_preserves_inv_witness:
  "grid_inv 20 \<lparr>box = 10, entry = 15, screen_indx = 1\<rparr> \<and>
   grid_inv 20 (key_down 20 \<lparr>box = 10, entry = 15, screen_indx = 1\<rparr>) \<and> grid_inv 20 (key_right 20 \<lparr>box = 10, entry = 15, screen_indx = 1\<rparr>) \<and>
   grid_inv 20 (key_left \<lparr>box = 10, entry = 15, screen_indx = 1\<rparr>) \<and> grid_inv 20 (key_up \<lparr>box = 10, entry = 15, screen_indx = 1\<rparr>)"
  using nav_preserves_inv [of 20 "\<lparr>box = 10, entry = 15, screen_indx = 1\<rparr>"]
  by (simp add: grid_inv_def int_of_size_def)

subsection \<open>Refinement of the selection contract\<close>

text \<open>
  C3. \<open>KEY_DOWN\<close> implements the selection contract \<open>sel_down\<close>: a row down
  when that entry exists, otherwise, from the bottom row of the window only, a
  jump to the last entry.
\<close>

lemma key_down_refines:
  "grid_inv sz s \<Longrightarrow>
   entry (key_down sz s) = sel_down (int_of_size sz) (9 < box s) (entry s)"
  by (auto simp: key_down_def sel_down_def grid_inv_def Let_def grid_simps)

lemma key_down_refines_witness:
  "grid_inv 20 \<lparr>box = 10, entry = 15, screen_indx = 1\<rparr> \<and>
   entry (key_down 20 \<lparr>box = 10, entry = 15, screen_indx = 1\<rparr>) = sel_down 20 True 15"
  using key_down_refines [of 20 "\<lparr>box = 10, entry = 15, screen_indx = 1\<rparr>"]
  by (simp add: grid_inv_def int_of_size_def)

lemma key_right_refines:
  "entry (key_right sz s) = sel_right (int_of_size sz) (entry s)"
  by (simp add: key_right_def sel_right_def Let_def)

lemma key_left_refines: "entry (key_left s) = sel_left (entry s)"
  by (simp add: key_left_def sel_left_def Let_def)

text \<open>
  C4. \<open>KEY_UP\<close> implements the selection contract \<open>sel_up\<close>: a row up
  whenever the selection is not in the catalog's first row, whatever cell of
  the window it occupies.
\<close>

lemma key_up_refines: "grid_inv sz s \<Longrightarrow> entry (key_up s) = sel_up (entry s)"
  by (auto simp: key_up_def sel_up_def grid_inv_def Let_def)

lemma key_up_refines_witness:
  "grid_inv 20 \<lparr>box = 2, entry = 7, screen_indx = 1\<rparr> \<and>
   entry (key_up \<lparr>box = 2, entry = 7, screen_indx = 1\<rparr>) = sel_up 7"
  using key_up_refines [of 20 "\<lparr>box = 2, entry = 7, screen_indx = 1\<rparr>"]
  by (simp add: grid_inv_def int_of_size_def)

subsection \<open>The window follows the selection\<close>

lemma key_down_scroll: "grid_inv sz s \<Longrightarrow> scroll_ok s (key_down sz s)"
  by (auto simp: key_down_def scroll_ok_def visible_def grid_inv_def Let_def grid_simps)

lemma key_right_scroll: "grid_inv sz s \<Longrightarrow> scroll_ok s (key_right sz s)"
  by (auto simp: key_right_def scroll_ok_def visible_def grid_inv_def Let_def grid_simps)

lemma key_left_scroll: "grid_inv sz s \<Longrightarrow> scroll_ok s (key_left s)"
  by (auto simp: key_left_def scroll_ok_def visible_def grid_inv_def Let_def grid_simps)

lemma key_up_scroll: "grid_inv sz s \<Longrightarrow> scroll_ok s (key_up s)"
  by (auto simp: key_up_def scroll_ok_def visible_def grid_inv_def Let_def grid_simps)

subsection \<open>Catalogs that fit on one screen never scroll\<close>

lemma grid_inv_small: "grid_inv sz s \<Longrightarrow> sz \<le> 15 \<Longrightarrow> int_of_size sz \<le> 15"
  using grid_inv_size_nonneg [of sz s] by (simp add: size_le_iff_int)

lemma key_down_small:
  "grid_inv sz s \<Longrightarrow> sz \<le> 15 \<Longrightarrow> screen_indx s = 0 \<Longrightarrow> screen_indx (key_down sz s) = 0"
  using grid_inv_small [of sz s] by (auto simp: key_down_def grid_inv_def Let_def not_less)

lemma key_right_small:
  "grid_inv sz s \<Longrightarrow> sz \<le> 15 \<Longrightarrow> screen_indx s = 0 \<Longrightarrow> screen_indx (key_right sz s) = 0"
  using grid_inv_small [of sz s] by (auto simp: key_right_def grid_inv_def Let_def)

lemma key_left_small:
  "grid_inv sz s \<Longrightarrow> screen_indx s = 0 \<Longrightarrow> screen_indx (key_left s) = 0"
  by (auto simp: key_left_def grid_inv_def Let_def)

lemma key_up_small:
  "grid_inv sz s \<Longrightarrow> screen_indx s = 0 \<Longrightarrow> screen_indx (key_up s) = 0"
  by (auto simp: key_up_def grid_inv_def Let_def)

subsection \<open>The window never runs past the catalog's end\<close>

text \<open>
  Forward rescrolls set the first visible row two rows above the new
  selection, so a window that is not the first never starts later than two
  rows before the last entry.
\<close>

lemma key_down_fits:
  "grid_inv sz s \<Longrightarrow> screen_indx s = 0 \<or> 5 * screen_indx s + 10 < int_of_size sz \<Longrightarrow>
   screen_indx (key_down sz s) = 0 \<or> 5 * screen_indx (key_down sz s) + 10 < int_of_size sz"
  by (auto simp: key_down_def grid_inv_def Let_def grid_simps)

lemma key_right_fits:
  "grid_inv sz s \<Longrightarrow> screen_indx s = 0 \<or> 5 * screen_indx s + 10 < int_of_size sz \<Longrightarrow>
   screen_indx (key_right sz s) = 0 \<or> 5 * screen_indx (key_right sz s) + 10 < int_of_size sz"
  by (auto simp: key_right_def grid_inv_def Let_def grid_simps)

lemma key_left_fits:
  "grid_inv sz s \<Longrightarrow> screen_indx s = 0 \<or> 5 * screen_indx s + 10 < int_of_size sz \<Longrightarrow>
   screen_indx (key_left s) = 0 \<or> 5 * screen_indx (key_left s) + 10 < int_of_size sz"
  by (auto simp: key_left_def grid_inv_def Let_def grid_simps)

lemma key_up_fits:
  "grid_inv sz s \<Longrightarrow> screen_indx s = 0 \<or> 5 * screen_indx s + 10 < int_of_size sz \<Longrightarrow>
   screen_indx (key_up s) = 0 \<or> 5 * screen_indx (key_up s) + 10 < int_of_size sz"
  by (auto simp: key_up_def grid_inv_def Let_def grid_simps)

subsection \<open>Claims on single handlers\<close>

text \<open>
  C5. \<open>KEY_RIGHT\<close> and \<open>KEY_LEFT\<close> implement the selection contracts
  \<open>sel_right\<close> and \<open>sel_left\<close> in every state: one entry forward unless the
  last entry is selected, one back unless the first is.
\<close>

lemma horizontal_refines:
  "entry (key_right sz s) = sel_right (int_of_size sz) (entry s) \<and>
   entry (key_left s) = sel_left (entry s)"
  by (simp add: key_right_refines key_left_refines)

text \<open>
  C6. The window follows the selection: no handler moves the first visible row
  by more than one row, and none moves it while the new selection is still on
  the old screen.
\<close>

theorem nav_scroll_ok:
  assumes "grid_inv sz s"
  shows "scroll_ok s (key_down sz s) \<and> scroll_ok s (key_right sz s) \<and>
         scroll_ok s (key_left s) \<and> scroll_ok s (key_up s)"
  using assms key_down_scroll key_right_scroll key_left_scroll key_up_scroll by blast

theorem nav_scroll_ok_witness:
  "grid_inv 20 \<lparr>box = 10, entry = 10, screen_indx = 0\<rparr> \<and> screen_indx (key_down 20 \<lparr>box = 10, entry = 10, screen_indx = 0\<rparr>) = 1 \<and>
   scroll_ok \<lparr>box = 10, entry = 10, screen_indx = 0\<rparr> (key_down 20 \<lparr>box = 10, entry = 10, screen_indx = 0\<rparr>) \<and> scroll_ok \<lparr>box = 10, entry = 10, screen_indx = 0\<rparr> (key_right 20 \<lparr>box = 10, entry = 10, screen_indx = 0\<rparr>) \<and>
   scroll_ok \<lparr>box = 10, entry = 10, screen_indx = 0\<rparr> (key_left \<lparr>box = 10, entry = 10, screen_indx = 0\<rparr>) \<and> scroll_ok \<lparr>box = 10, entry = 10, screen_indx = 0\<rparr> (key_up \<lparr>box = 10, entry = 10, screen_indx = 0\<rparr>)"
proof -
  have inv: "grid_inv 20 \<lparr>box = 10, entry = 10, screen_indx = 0\<rparr>" by (simp add: grid_inv_def int_of_size_def)
  have "screen_indx (key_down 20 \<lparr>box = 10, entry = 10, screen_indx = 0\<rparr>) = 1" by (simp add: key_down_def int_of_size_def)
  with inv nav_scroll_ok [OF inv] show ?thesis by simp
qed

text \<open>
  C8. \<open>KEY_DOWN\<close> from the bottom row, when no entry lies a whole row below
  the one before last, selects the last entry, puts the cursor in its column
  of the bottom row and, for catalogs of more than 15 entries, shows the
  selected row as the window's third row.
\<close>

lemma key_down_jump_to_end:
  assumes "grid_inv sz s" and "9 < box s" and "int_of_size sz - 1 \<le> entry s + 5"
    and "entry s < int_of_size sz - 1"
  shows "key_down sz s =
           \<lparr>box = 10 + (int_of_size sz - 1) mod 5, entry = int_of_size sz - 1,
            screen_indx = (if 15 < sz then (int_of_size sz - 1) div 5 - 2 else screen_indx s)\<rparr>"
  using assms by (auto simp: key_down_def grid_inv_def Let_def grid_simps)

lemma key_down_jump_to_end_witness:
  "grid_inv 20 \<lparr>box = 10, entry = 15, screen_indx = 1\<rparr> \<and> (9::int) < 10 \<and> int_of_size 20 - 1 \<le> 15 + 5 \<and> 15 < int_of_size 20 - 1 \<and>
   key_down 20 \<lparr>box = 10, entry = 15, screen_indx = 1\<rparr> = \<lparr>box = 14, entry = 19, screen_indx = 1\<rparr>"
  using key_down_jump_to_end [of 20 "\<lparr>box = 10, entry = 15, screen_indx = 1\<rparr>"]
  by (simp add: grid_inv_def int_of_size_def)

text \<open>
  C9. \<open>KEY_DOWN\<close> from the bottom row, when an entry exists a row below and
  is not the last one, moves the selection one row down and scrolls the window
  by one row, leaving the cursor in its cell; it does not jump to the end.
\<close>

lemma key_down_bottom_scroll:
  assumes "grid_inv sz s" and "9 < box s" and "entry s + 5 < int_of_size sz - 1"
  shows "key_down sz s = s\<lparr>entry := entry s + 5, screen_indx := screen_indx s + 1\<rparr>"
  using assms by (auto simp: key_down_def grid_inv_def Let_def grid_simps)

lemma key_down_bottom_scroll_witness:
  "grid_inv 20 \<lparr>box = 10, entry = 10, screen_indx = 0\<rparr> \<and> (9::int) < 10 \<and> 10 + 5 < int_of_size 20 - 1 \<and>
   key_down 20 \<lparr>box = 10, entry = 10, screen_indx = 0\<rparr> = \<lparr>box = 10, entry = 15, screen_indx = 1\<rparr>"
  using key_down_bottom_scroll [of 20 "\<lparr>box = 10, entry = 10, screen_indx = 0\<rparr>"]
  by (simp add: grid_inv_def int_of_size_def)

text \<open>
  C10. No handler scrolls the window or moves the cursor without moving the
  selection, and each moves it only in its own direction: in every valid
  state, whenever Down or Right changes the store the selected entry grows,
  and whenever Left or Up changes it the selected entry shrinks.
\<close>

theorem selection_monotone:
  assumes "grid_inv sz s"
  shows "(key_down sz s \<noteq> s \<longrightarrow> entry s < entry (key_down sz s)) \<and>
         (key_right sz s \<noteq> s \<longrightarrow> entry s < entry (key_right sz s)) \<and>
         (key_left s \<noteq> s \<longrightarrow> entry (key_left s) < entry s) \<and>
         (key_up s \<noteq> s \<longrightarrow> entry (key_up s) < entry s)"
  using assms by (auto simp: nav_defs grid_inv_def Let_def grid_simps)

theorem selection_monotone_witness:
  "grid_inv 20 \<lparr>box = 10, entry = 15, screen_indx = 1\<rparr> \<and>
   key_down 20 \<lparr>box = 10, entry = 15, screen_indx = 1\<rparr> \<noteq> \<lparr>box = 10, entry = 15, screen_indx = 1\<rparr> \<and>
   entry (key_down 20 \<lparr>box = 10, entry = 15, screen_indx = 1\<rparr>) = 19"
proof -
  have inv: "grid_inv 20 \<lparr>box = 10, entry = 15, screen_indx = 1\<rparr>" by (simp add: grid_inv_def int_of_size_def)
  have st: "key_down 20 \<lparr>box = 10, entry = 15, screen_indx = 1\<rparr> = \<lparr>box = 14, entry = 19, screen_indx = 1\<rparr>"
    by (simp add: key_down_def int_of_size_def Let_def signed_divide_int_def signed_modulo_int_def)
  have "15 < entry (key_down 20 \<lparr>box = 10, entry = 15, screen_indx = 1\<rparr>)"
    using selection_monotone [OF inv] st by simp
  with inv st show ?thesis by simp
qed

text \<open>
  C12. Left and Right undo each other inside the window: from any cell but the
  first, Right after Left restores the state, and from any cell but the last,
  when a next entry exists, Left after Right does.
\<close>

theorem left_right_roundtrip:
  assumes "grid_inv sz s"
  shows "(0 < box s \<longrightarrow> key_right sz (key_left s) = s) \<and>
         (box s < 14 \<and> entry s < int_of_size sz - 1 \<longrightarrow> key_left (key_right sz s) = s)"
  using assms by (auto simp: key_left_def key_right_def grid_inv_def)

theorem left_right_roundtrip_witness:
  "grid_inv 20 \<lparr>box = 7, entry = 12, screen_indx = 1\<rparr> \<and> (0::int) < 7 \<and> (7::int) < 14 \<and> 12 < int_of_size 20 - 1 \<and>
   key_right 20 (key_left \<lparr>box = 7, entry = 12, screen_indx = 1\<rparr>) = \<lparr>box = 7, entry = 12, screen_indx = 1\<rparr> \<and>
   key_left (key_right 20 \<lparr>box = 7, entry = 12, screen_indx = 1\<rparr>) = \<lparr>box = 7, entry = 12, screen_indx = 1\<rparr>"
  using left_right_roundtrip [of 20 "\<lparr>box = 7, entry = 12, screen_indx = 1\<rparr>"]
  by (simp add: grid_inv_def int_of_size_def)

text \<open>
  C13. At the first cell of the window the two moves are not inverse: in every
  valid state whose cursor is in cell 0 and whose selection is not the first
  entry, Left wraps to cell 4 of the row above and scrolls the window up a
  row, and Right then stays in the new window: the selection is restored, but
  the cursor ends in cell 5 and the window one row higher.
\<close>

theorem left_wrap_right_not_inverse:
  assumes "grid_inv sz s" and "box s = 0" and "0 < entry s"
  shows "key_right sz (key_left s) = s\<lparr>box := 5, screen_indx := screen_indx s - 1\<rparr> \<and>
         key_right sz (key_left s) \<noteq> s"
proof -
  have eq: "key_right sz (key_left s) = s\<lparr>box := 5, screen_indx := screen_indx s - 1\<rparr>"
    using assms by (auto simp: key_left_def key_right_def grid_inv_def Let_def grid_simps)
  moreover have "s\<lparr>box := 5, screen_indx := screen_indx s - 1\<rparr> \<noteq> s"
    using assms(2) by (auto dest: arg_cong [where f = box])
  ultimately show ?thesis by simp
qed

theorem left_wrap_right_not_inverse_witness:
  "grid_inv 20 \<lparr>box = 0, entry = 5, screen_indx = 1\<rparr> \<and> box \<lparr>box = 0, entry = 5, screen_indx = 1\<rparr> = 0 \<and>
   0 < entry \<lparr>box = 0, entry = 5, screen_indx = 1\<rparr> \<and>
   key_right 20 (key_left \<lparr>box = 0, entry = 5, screen_indx = 1\<rparr>) = \<lparr>box = 5, entry = 5, screen_indx = 0\<rparr>"
  using left_wrap_right_not_inverse [of 20 "\<lparr>box = 0, entry = 5, screen_indx = 1\<rparr>"]
  by (simp add: grid_inv_def int_of_size_def)

text \<open>
  C14. Moves past a boundary are no-ops: Left and Up at the first entry, Right
  at the last entry, and every move on an empty catalog.
\<close>

theorem boundary_moves_noop:
  assumes "grid_inv sz s"
  shows "(entry s = 0 \<longrightarrow> key_left s = s \<and> key_up s = s) \<and>
         (entry s = int_of_size sz - 1 \<longrightarrow> key_right sz s = s) \<and>
         (sz = 0 \<longrightarrow> key_down sz s = s \<and> key_right sz s = s \<and> key_left s = s \<and> key_up s = s)"
  using assms by (auto simp: nav_defs grid_inv_def int_of_size_zero)

theorem boundary_moves_noop_witness:
  "grid_inv 1 init_store \<and> entry init_store = 0 \<and> entry init_store = int_of_size 1 - 1 \<and>
   key_left init_store = init_store \<and> key_up init_store = init_store \<and>
   key_right 1 init_store = init_store \<and>
   grid_inv 0 init_store \<and> key_down 0 init_store = init_store"
  using boundary_moves_noop [of 1 init_store] boundary_moves_noop [of 0 init_store]
  by (simp add: grid_inv_def init_store_def int_of_size_def)

text \<open>
  C36. Up and Down undo each other away from the window's bottom row: from a
  cell of the first two rows, when the entry a row below exists, Up after Down
  restores the state, and from a cell of the last two rows Down after Up does.
\<close>

theorem up_down_roundtrip:
  assumes "grid_inv sz s"
  shows "(box s \<le> 9 \<and> entry s + 5 < int_of_size sz \<longrightarrow> key_up (key_down sz s) = s) \<and>
         (5 \<le> box s \<longrightarrow> key_down sz (key_up s) = s)"
  using assms by (auto simp: key_up_def key_down_def grid_inv_def)

theorem up_down_roundtrip_witness:
  "grid_inv 20 \<lparr>box = 7, entry = 12, screen_indx = 1\<rparr> \<and> (7::int) \<le> 9 \<and> 12 + 5 < int_of_size 20 \<and> (5::int) \<le> 7 \<and>
   key_up (key_down 20 \<lparr>box = 7, entry = 12, screen_indx = 1\<rparr>) = \<lparr>box = 7, entry = 12, screen_indx = 1\<rparr> \<and>
   key_down 20 (key_up \<lparr>box = 7, entry = 12, screen_indx = 1\<rparr>) = \<lparr>box = 7, entry = 12, screen_indx = 1\<rparr>"
  using up_down_roundtrip [of 20 "\<lparr>box = 7, entry = 12, screen_indx = 1\<rparr>"]
  by (simp add: grid_inv_def int_of_size_def)

text \<open>
  C40. Where a rescroll leaves the selection (the spec's open question on the
  two-row bias): whenever Down or Right scrolls the window forward, the new
  selection is in the window's bottom row, whose first visible row is the
  selection's row minus 2; whenever Left or Up scrolls it back, the new
  selection is in the window's top row. The bias is thus the amount that puts
  the selection on the edge the user moved towards, with two rows of context
  behind it.
\<close>

theorem scroll_lands_on_edge_row:
  assumes "grid_inv sz s"
  shows "(\<forall>s' \<in> {key_down sz s, key_right sz s}. screen_indx s < screen_indx s' \<longrightarrow>
            10 \<le> box s' \<and> screen_indx s' = entry s' div 5 - 2) \<and>
         (\<forall>s' \<in> {key_left s, key_up s}. screen_indx s' < screen_indx s \<longrightarrow>
            box s' \<le> 4 \<and> screen_indx s' = entry s' div 5)"
  using assms by (auto simp: nav_defs grid_inv_def Let_def grid_simps)

theorem scroll_lands_on_edge_row_witness:
  "grid_inv 20 \<lparr>box = 14, entry = 14, screen_indx = 0\<rparr> \<and>
   key_right 20 \<lparr>box = 14, entry = 14, screen_indx = 0\<rparr> = \<lparr>box = 10, entry = 15, screen_indx = 1\<rparr> \<and>
   10 \<le> box (key_right 20 \<lparr>box = 14, entry = 14, screen_indx = 0\<rparr>) \<and>
   screen_indx (key_right 20 \<lparr>box = 14, entry = 14, screen_indx = 0\<rparr>) =
     entry (key_right 20 \<lparr>box = 14, entry = 14, screen_indx = 0\<rparr>) div 5 - 2"
proof -
  have inv: "grid_inv 20 \<lparr>box = 14, entry = 14, screen_indx = 0\<rparr>" by (simp add: grid_inv_def int_of_size_def)
  have st: "key_right 20 \<lparr>box = 14, entry = 14, screen_indx = 0\<rparr> = \<lparr>box = 10, entry = 15, screen_indx = 1\<rparr>"
    by (simp add: key_right_def int_of_size_def signed_divide_int_def)
  from scroll_lands_on_edge_row [OF inv] st have "10 \<le> box (key_right 20 \<lparr>box = 14, entry = 14, screen_indx = 0\<rparr>) \<and>
     screen_indx (key_right 20 \<lparr>box = 14, entry = 14, screen_indx = 0\<rparr>) =
     entry (key_right 20 \<lparr>box = 14, entry = 14, screen_indx = 0\<rparr>) div 5 - 2" by simp
  with inv st show ?thesis by simp
qed

end
