(* ===== verification/Grid_Input.thy ===== *)
theory Grid_Input
  imports Grid_Prelude
begin

text \<open>
  Input as the grid code sees it: the global 32-bit key words \<open>hRepeat\<close>
  (keys held, re-delivered at the repeat cadence) and \<open>hDown\<close> (keys newly
  pressed) of libctru's HID service, tested with \<open>hRepeat & KEY_DOWN\<close> and so
  on. The masks are libctru's: each direction is the D-pad bit or'ed with the
  circle-pad bit, \<open>KEY_A\<close> is bit 0. This theory names the keys the grid
  reacts to and proves that the masks are disjoint, so that a key word holding
  one mask triggers exactly one branch of \<open>GridLogic\<close>.
\<close>

datatype key = KeyA | KeyDown | KeyRight | KeyLeft | KeyUp

definition BIT :: "nat \<Rightarrow> u32" where
  "BIT n = push_bit n 1"

definition key_mask :: "key \<Rightarrow> u32" where
  "key_mask k = (case k of
      KeyA \<Rightarrow> BIT 0
    | KeyRight \<Rightarrow> BIT 4 OR BIT 28
    | KeyLeft \<Rightarrow> BIT 5 OR BIT 29
    | KeyUp \<Rightarrow> BIT 6 OR BIT 30
    | KeyDown \<Rightarrow> BIT 7 OR BIT 31)"

definition held :: "u32 \<Rightarrow> key \<Rightarrow> bool" where
  "held h k \<longleftrightarrow> h AND key_mask k \<noteq> 0"

lemma key_mask_values [grid_simps]:
  "key_mask KeyA = 0x1" "key_mask KeyRight = 0x10000010" "key_mask KeyLeft = 0x20000020"
  "key_mask KeyUp = 0x40000040" "key_mask KeyDown = 0x80000080"
  by (simp_all add: key_mask_def BIT_def)

lemma held_mask [grid_simps]: "held (key_mask k) k' \<longleftrightarrow> k = k'"
  by (cases k; cases k') (simp_all add: held_def key_mask_values)

lemma held_or [grid_simps]: "held (h1 OR h2) k \<longleftrightarrow> held h1 k \<or> held h2 k"
  by (auto simp: held_def bit.conj_disj_distrib2 or_eq_0_iff)

lemma held_zero [grid_simps]: "\<not> held 0 k"
  by (simp add: held_def)

end
