(* ===== verification/Grid_Logic.thy ===== *)
theory Grid_Logic
  imports Grid_Nav Grid_Input
begin

text \<open>
  One call of \<open>StoreUtils::GridLogic\<close>: the \<open>store\<close> pointer may be null, in
  which case nothing happens; otherwise the four directional branches run in the
  source's order (Down, Right, Left, Up), each when its mask is held in
  \<open>hRepeat\<close>, so that several held keys compose within one frame; then a fresh
  \<open>KEY_A\<close> in \<open>hDown\<close> requests the fetch mode through the caller's variables
  \<open>fetch\<close>, \<open>smallDelay\<close>, \<open>lastMode\<close> and \<open>currentMode\<close>. The browsing
  session calls it once per frame; \<open>grid_run\<close> strings frames together and
  \<open>reachable\<close> is the set of stores some sequence of frames produces from the
  start state, for a fixed catalog size.
\<close>

record mode_vars =
  currentMode :: int
  lastMode :: int
  fetch :: bool
  smallDelay :: int

definition grid_activate :: "mode_vars \<Rightarrow> mode_vars" where
  "grid_activate m = m\<lparr>fetch := True, smallDelay := 5, lastMode := currentMode m, currentMode := 1\<rparr>"

definition nav_frame :: "u32 \<Rightarrow> size_t \<Rightarrow> store \<Rightarrow> store" where
  "nav_frame hRepeat sz s =
     (let s1 = (if held hRepeat KeyDown then key_down sz s else s);
          s2 = (if held hRepeat KeyRight then key_right sz s1 else s1);
          s3 = (if held hRepeat KeyLeft then key_left s2 else s2)
      in if held hRepeat KeyUp then key_up s3 else s3)"

definition grid_logic ::
  "u32 \<Rightarrow> u32 \<Rightarrow> store option \<Rightarrow> 'e list \<Rightarrow> mode_vars \<Rightarrow> store option \<times> mode_vars" where
  "grid_logic hRepeat hDown st entries m =
     (case st of
        None \<Rightarrow> (None, m)
      | Some s \<Rightarrow>
          (Some (nav_frame hRepeat (size_of_list entries) s),
           if held hDown KeyA then grid_activate m else m))"

fun grid_run ::
  "(u32 \<times> u32) list \<Rightarrow> 'e list \<Rightarrow> store option \<Rightarrow> mode_vars \<Rightarrow> store option \<times> mode_vars" where
  "grid_run [] es st m = (st, m)"
| "grid_run ((hR, hD) # fs) es st m =
     (case grid_logic hR hD st es m of (st', m') \<Rightarrow> grid_run fs es st' m')"

inductive reachable :: "size_t \<Rightarrow> store \<Rightarrow> bool" where
  start: "0 \<le> int_of_size sz \<Longrightarrow> reachable sz init_store"
| frame: "reachable sz s \<Longrightarrow> reachable sz (nav_frame h sz s)"

subsection \<open>A frame keeps the invariant\<close>

lemma nav_frame_inv: "grid_inv sz s \<Longrightarrow> grid_inv sz (nav_frame h sz s)"
  by (simp add: nav_frame_def Let_def key_down_inv key_right_inv key_left_inv key_up_inv)

lemma nav_frame_small:
  "grid_inv sz s \<Longrightarrow> sz \<le> 15 \<Longrightarrow> screen_indx s = 0 \<Longrightarrow> screen_indx (nav_frame h sz s) = 0"
  by (simp add: nav_frame_def Let_def key_down_inv key_right_inv key_left_inv
      key_down_small key_right_small key_left_small [of sz] key_up_small [of sz])

lemma reachable_inv_small:
  "reachable sz s \<Longrightarrow> grid_inv sz s \<and> (sz \<le> 15 \<longrightarrow> screen_indx s = 0)"
proof (induction rule: reachable.induct)
  case (start sz)
  then show ?case using grid_inv_init [of sz] by (simp add: init_store_def)
next
  case (frame sz s h)
  then show ?case by (simp add: nav_frame_inv nav_frame_small)
qed

lemma grid_logic_Some:
  "grid_logic hR hD (Some s) es m =
     (Some (nav_frame hR (size_of_list es) s), if held hD KeyA then grid_activate m else m)"
  by (simp add: grid_logic_def)

lemma grid_run_reachable:
  "reachable (size_of_list es) s \<Longrightarrow>
   \<exists>s'. fst (grid_run fs es (Some s) m) = Some s' \<and> reachable (size_of_list es) s'"
proof (induction fs arbitrary: s m)
  case Nil
  then show ?case by simp
next
  case (Cons f fs)
  obtain hR hD where f: "f = (hR, hD)" by (cases f)
  from Cons.prems have "reachable (size_of_list es) (nav_frame hR (size_of_list es) s)"
    by (rule reachable.frame)
  with Cons.IH f show ?case by (simp add: grid_logic_Some)
qed

lemma nav_frame_zero [simp]: "nav_frame 0 sz s = s"
  by (simp add: nav_frame_def held_zero)

lemma nav_frame_right [simp]: "nav_frame (key_mask KeyRight) sz s = key_right sz s"
  by (simp add: nav_frame_def held_mask)

lemma grid_run_repeat:
  "(\<And>t. nav_frame h (size_of_list es) t = f t) \<Longrightarrow>
   grid_run (replicate k (h, 0)) es (Some s) m = (Some ((f ^^ k) s), m)"
  by (induction k arbitrary: s) (simp_all add: grid_logic_Some held_zero funpow_swap1)

lemma grid_run_right:
  "grid_run (replicate k (key_mask KeyRight, 0)) es (Some s) m =
     (Some ((key_right (size_of_list es) ^^ k) s), m)"
  by (rule grid_run_repeat) simp

lemma entry_right_iter:
  "entry s + int k < int_of_size sz \<Longrightarrow> entry ((key_right sz ^^ k) s) = entry s + int k"
  by (induction k) (simp_all add: key_right_refines sel_right_def)

lemma nav_frame_left [simp]: "nav_frame (key_mask KeyLeft) sz s = key_left s"
  by (simp add: nav_frame_def held_mask)

lemma grid_run_left:
  "grid_run (replicate k (key_mask KeyLeft, 0)) es (Some s) m = (Some ((key_left ^^ k) s), m)"
  by (rule grid_run_repeat) simp

lemma nav_frame_up [simp]: "nav_frame (key_mask KeyUp) sz s = key_up s"
  by (simp add: nav_frame_def held_mask)

lemma key_up_view: "view_consistent s \<Longrightarrow> view_consistent (key_up s)"
  by (auto simp: key_up_def view_consistent_def Let_def grid_simps) presburger

lemma key_up_step: "view_consistent s \<Longrightarrow> 5 \<le> entry s \<Longrightarrow> entry (key_up s) = entry s - 5"
  by (auto simp: key_up_def view_consistent_def Let_def)

lemma key_up_iter:
  "view_consistent s \<Longrightarrow> 5 * int k \<le> entry s \<Longrightarrow>
   view_consistent ((key_up ^^ k) s) \<and> entry ((key_up ^^ k) s) = entry s - 5 * int k"
  by (induction k) (simp_all add: key_up_view key_up_step)

lemma view_consistent_first_row:
  "view_consistent t \<Longrightarrow> entry t < 5 \<Longrightarrow> t = \<lparr>box = entry t, entry = entry t, screen_indx = 0\<rparr>"
  by (cases t) (auto simp: view_consistent_def)

lemma nav_frame_fits:
  assumes "grid_inv sz s" and "screen_indx s = 0 \<or> 5 * screen_indx s + 10 < int_of_size sz"
  shows "screen_indx (nav_frame h sz s) = 0 \<or> 5 * screen_indx (nav_frame h sz s) + 10 < int_of_size sz"
proof -
  define d where "d = (if held h KeyDown then key_down sz s else s)"
  define r where "r = (if held h KeyRight then key_right sz d else d)"
  define l where "l = (if held h KeyLeft then key_left r else r)"
  have id: "grid_inv sz d" and fd: "screen_indx d = 0 \<or> 5 * screen_indx d + 10 < int_of_size sz"
    using assms by (simp_all add: d_def key_down_inv key_down_fits)
  have ir: "grid_inv sz r" and fr: "screen_indx r = 0 \<or> 5 * screen_indx r + 10 < int_of_size sz"
    using id fd by (simp_all add: r_def key_right_inv key_right_fits)
  have il: "grid_inv sz l" and fl: "screen_indx l = 0 \<or> 5 * screen_indx l + 10 < int_of_size sz"
    using ir fr by (simp_all add: l_def key_left_inv key_left_fits)
  have "nav_frame h sz s = (if held h KeyUp then key_up l else l)"
    by (simp add: nav_frame_def Let_def d_def r_def l_def)
  with il fl show ?thesis by (simp add: key_up_fits)
qed

lemma reachable_fits:
  "reachable sz s \<Longrightarrow> screen_indx s = 0 \<or> 5 * screen_indx s + 10 < int_of_size sz"
proof (induction rule: reachable.induct)
  case (start sz)
  then show ?case by (simp add: init_store_def)
next
  case (frame sz s h)
  then show ?case using reachable_inv_small nav_frame_fits by blast
qed

lemma key_left_view: "view_consistent s \<Longrightarrow> view_consistent (key_left s)"
  by (auto simp: key_left_def view_consistent_def Let_def grid_simps) presburger

lemma key_left_iter:
  "view_consistent s \<Longrightarrow> int k \<le> entry s \<Longrightarrow>
   view_consistent ((key_left ^^ k) s) \<and> entry ((key_left ^^ k) s) = entry s - int k"
  by (induction k) (simp_all add: key_left_view key_left_refines sel_left_def)

subsection \<open>Claims on frames and runs\<close>

text \<open>
  C2. Every store that a sequence of \<open>GridLogic\<close> frames produces from the
  start state, whatever keys are held in each frame, satisfies the view-state
  invariant.
\<close>

theorem reachable_grid_inv: "reachable sz s \<Longrightarrow> grid_inv sz s"
  by (simp add: reachable_inv_small)

theorem reachable_grid_inv_witness:
  "reachable 12 (nav_frame (key_mask KeyDown OR key_mask KeyRight) 12 init_store) \<and>
   grid_inv 12 (nav_frame (key_mask KeyDown OR key_mask KeyRight) 12 init_store)"
proof -
  have r: "reachable 12 (nav_frame (key_mask KeyDown OR key_mask KeyRight) 12 init_store)"
    by (rule reachable.frame, rule reachable.start) (simp add: int_of_size_def)
  with reachable_grid_inv [OF r] show ?thesis by simp
qed

text \<open>
  C7. For a catalog of at most 15 entries the window never scrolls: in every
  reachable state the first visible row is row 0.
\<close>

theorem reachable_small_no_scroll:
  "reachable sz s \<Longrightarrow> sz \<le> 15 \<Longrightarrow> screen_indx s = 0"
  using reachable_inv_small by blast

theorem reachable_small_no_scroll_witness:
  "reachable 12 (nav_frame (key_mask KeyDown) 12 (nav_frame (key_mask KeyDown) 12 init_store)) \<and>
   (12::u32) \<le> 15 \<and>
   screen_indx (nav_frame (key_mask KeyDown) 12 (nav_frame (key_mask KeyDown) 12 init_store)) = 0"
proof -
  have r: "reachable 12 (nav_frame (key_mask KeyDown) 12 (nav_frame (key_mask KeyDown) 12 init_store))"
    by (rule reachable.frame, rule reachable.frame, rule reachable.start) (simp add: int_of_size_def)
  with reachable_small_no_scroll [OF r] show ?thesis by simp
qed

text \<open>
  C18. Over any sequence of frames on a catalog that fits in an \<open>int\<close>, started
  from the session's start state, \<open>GridLogic\<close> always has a store and the store
  always satisfies the view-state invariant.
\<close>

theorem grid_run_inv:
  assumes "length es < 2 ^ 31"
  shows "\<exists>s. fst (grid_run fs es (Some init_store) m) = Some s \<and> grid_inv (size_of_list es) s"
proof -
  from assms have "0 \<le> int_of_size (size_of_list es)" by (simp add: int_of_size_list)
  then have "reachable (size_of_list es) init_store" by (rule reachable.start)
  then show ?thesis using grid_run_reachable reachable_grid_inv by blast
qed

theorem grid_run_inv_witness:
  "length [(), ()] < 2 ^ 31 \<and>
   (\<exists>s. fst (grid_run [(key_mask KeyLeft, key_mask KeyA)] [(), ()] (Some init_store)
           \<lparr>currentMode = 0, lastMode = 0, fetch = False, smallDelay = 0\<rparr>) = Some s \<and>
        grid_inv (size_of_list [(), ()]) s)"
  using grid_run_inv [of "[(), ()]" "[(key_mask KeyLeft, key_mask KeyA)]"
      "\<lparr>currentMode = 0, lastMode = 0, fetch = False, smallDelay = 0\<rparr>"]
  by simp

text \<open>
  C15. \<open>KEY_A\<close> requests the fetch mode whatever the catalog holds, also when it
  is empty: the store is left as it is, \<open>fetch\<close> is set, \<open>smallDelay\<close> is 5,
  \<open>lastMode\<close> takes the old \<open>currentMode\<close> and \<open>currentMode\<close> becomes 1. Two
  documents disagree with this: the spec (sections 7 and 8) asks for a no-op on
  an empty catalog, and the doc comment above \<open>GridLogic\<close> (line 97) declares
  the parameter \<open>const int &currentMode\<close>, read-only, while the signature at
  line 102 takes \<open>int &currentMode\<close> and line 176 writes it.
\<close>

theorem activate_on_empty_catalog:
  "grid_logic 0 (key_mask KeyA) (Some s) [] m =
     (Some s, m\<lparr>fetch := True, smallDelay := 5, lastMode := currentMode m, currentMode := 1\<rparr>)"
  by (simp add: grid_logic_Some held_mask grid_activate_def)

text \<open>
  C16. The key masks reach the handlers one to one: a key word holding one
  direction's mask runs exactly that handler, \<open>KEY_A\<close> alone moves nothing,
  and Down together with Up runs Down first, then Up.
\<close>

theorem key_dispatch:
  "nav_frame (key_mask KeyDown) sz s = key_down sz s \<and>
   nav_frame (key_mask KeyRight) sz s = key_right sz s \<and>
   nav_frame (key_mask KeyLeft) sz s = key_left s \<and>
   nav_frame (key_mask KeyUp) sz s = key_up s \<and>
   nav_frame (key_mask KeyA) sz s = s \<and>
   nav_frame (key_mask KeyDown OR key_mask KeyUp) sz s = key_up (key_down sz s)"
  by (simp add: nav_frame_def held_mask held_or)

text \<open>
  C17. Every entry of a catalog that fits in an \<open>int\<close> can be selected: from
  the start state, \<open>t\<close> frames of \<open>KEY_RIGHT\<close> select entry \<open>t\<close> and leave
  the mode variables alone.
\<close>

theorem every_entry_selectable:
  assumes "length es < 2 ^ 31" and "0 \<le> t" and "t < int (length es)"
  shows "\<exists>s. grid_run (replicate (nat t) (key_mask KeyRight, 0)) es (Some init_store) m = (Some s, m) \<and>
             entry s = t"
proof -
  from assms have "entry init_store + int (nat t) < int_of_size (size_of_list es)"
    by (simp add: int_of_size_list init_store_def)
  then have "entry ((key_right (size_of_list es) ^^ nat t) init_store) = t"
    using assms(2) by (simp add: entry_right_iter init_store_def)
  then show ?thesis by (simp add: grid_run_right)
qed

theorem every_entry_selectable_witness:
  "length (replicate 20 ()) < 2 ^ 31 \<and> (0::int) \<le> 17 \<and> 17 < int (length (replicate 20 ())) \<and>
   (\<exists>s. grid_run (replicate (nat 17) (key_mask KeyRight, 0)) (replicate 20 ()) (Some init_store)
          \<lparr>currentMode = 0, lastMode = 0, fetch = False, smallDelay = 0\<rparr> =
        (Some s, \<lparr>currentMode = 0, lastMode = 0, fetch = False, smallDelay = 0\<rparr>) \<and> entry s = 17)"
  using every_entry_selectable [of "replicate 20 ()" 17 "\<lparr>currentMode = 0, lastMode = 0, fetch = False, smallDelay = 0\<rparr>"]
  by simp

text \<open>
  C34. A selection left past the end of a catalog that has shrunk is
  recoverable: from any view-consistent store whose selection lies at or past
  the end of a non-empty catalog, enough frames of \<open>KEY_LEFT\<close> (one per entry
  of excess) select the last entry and restore the whole invariant.
\<close>

theorem stale_selection_recovers:
  assumes "view_consistent s" and "es \<noteq> []" and "length es < 2 ^ 31"
    and "int (length es) \<le> entry s"
  shows "\<exists>s'. grid_run (replicate (nat (entry s - int (length es) + 1)) (key_mask KeyLeft, 0)) es (Some s) m =
               (Some s', m) \<and> entry s' = int (length es) - 1 \<and> grid_inv (size_of_list es) s'"
proof -
  let ?k = "nat (entry s - int (length es) + 1)"
  from assms(2,4) have "int ?k \<le> entry s" by (simp add: Suc_le_eq)
  with assms(1) have "view_consistent ((key_left ^^ ?k) s)"
    and e: "entry ((key_left ^^ ?k) s) = int (length es) - 1"
    using assms(2,4) key_left_iter [of s ?k] by auto
  moreover have "int (length es) - 1 < int_of_size (size_of_list es)"
    using assms(3) by (simp add: int_of_size_list)
  ultimately have "grid_inv (size_of_list es) ((key_left ^^ ?k) s)"
    by (simp add: grid_inv_view_consistent)
  with e show ?thesis by (simp add: grid_run_left)
qed

theorem stale_selection_recovers_witness:
  "view_consistent \<lparr>box = 3, entry = 8, screen_indx = 1\<rparr> \<and> replicate 4 () \<noteq> [] \<and>
   length (replicate 4 ()) < 2 ^ 31 \<and> int (length (replicate 4 ())) \<le> entry \<lparr>box = 3, entry = 8, screen_indx = 1\<rparr> \<and>
   (\<exists>s'. grid_run (replicate (nat (8 - 4 + 1)) (key_mask KeyLeft, 0)) (replicate 4 ()) (Some \<lparr>box = 3, entry = 8, screen_indx = 1\<rparr>)
            \<lparr>currentMode = 0, lastMode = 0, fetch = False, smallDelay = 0\<rparr> =
          (Some s', \<lparr>currentMode = 0, lastMode = 0, fetch = False, smallDelay = 0\<rparr>) \<and>
          entry s' = 3 \<and> grid_inv (size_of_list (replicate 4 ())) s')"
  using stale_selection_recovers [of "\<lparr>box = 3, entry = 8, screen_indx = 1\<rparr>" "replicate 4 ()"
      "\<lparr>currentMode = 0, lastMode = 0, fetch = False, smallDelay = 0\<rparr>"]
  by (simp add: view_consistent_def)


text \<open>
  C11. Up always returns to the top of the catalog in the selection's column:
  from any view-consistent store, \<open>entry div 5\<close> frames of \<open>KEY_UP\<close> select
  entry \<open>entry mod 5\<close>, in that cell of the first row, with the window at the
  catalog's first row, and leave the mode variables alone.
\<close>

theorem up_returns_to_first_row:
  assumes "view_consistent s"
  shows "grid_run (replicate (nat (entry s div 5)) (key_mask KeyUp, 0)) es (Some s) m =
           (Some \<lparr>box = entry s mod 5, entry = entry s mod 5, screen_indx = 0\<rparr>, m)"
proof -
  let ?k = "nat (entry s div 5)"
  from assms have "0 \<le> entry s" by (simp add: view_consistent_def)
  then have k: "int ?k = entry s div 5" by simp
  have "entry s = 5 * (entry s div 5) + entry s mod 5" "0 \<le> entry s mod 5" by simp_all
  with k have "5 * int ?k \<le> entry s" by linarith
  with assms have "view_consistent ((key_up ^^ ?k) s)" and e: "entry ((key_up ^^ ?k) s) = entry s mod 5"
    using key_up_iter [of s ?k] \<open>0 \<le> entry s\<close> by (auto simp: minus_div_mult_eq_mod [symmetric])
  moreover have "entry s mod 5 < 5" by simp
  ultimately have "(key_up ^^ ?k) s = \<lparr>box = entry s mod 5, entry = entry s mod 5, screen_indx = 0\<rparr>"
    using view_consistent_first_row [of "(key_up ^^ ?k) s"] by simp
  then show ?thesis by (simp add: grid_run_repeat)
qed

theorem up_returns_to_first_row_witness:
  "view_consistent \<lparr>box = 7, entry = 12, screen_indx = 1\<rparr> \<and>
   grid_run (replicate (nat (12 div 5)) (key_mask KeyUp, 0)) (replicate 20 ()) (Some \<lparr>box = 7, entry = 12, screen_indx = 1\<rparr>)
     \<lparr>currentMode = 0, lastMode = 0, fetch = False, smallDelay = 0\<rparr> =
   (Some \<lparr>box = 2, entry = 2, screen_indx = 0\<rparr>, \<lparr>currentMode = 0, lastMode = 0, fetch = False, smallDelay = 0\<rparr>)"
proof -
  have v: "view_consistent \<lparr>box = 7, entry = 12, screen_indx = 1\<rparr>" by (simp add: view_consistent_def)
  from up_returns_to_first_row [OF v, of "replicate 20 ()" "\<lparr>currentMode = 0, lastMode = 0, fetch = False, smallDelay = 0\<rparr>"] v
  show ?thesis by simp
qed

text \<open>
  C37. The window never runs past the catalog's end: in every reachable state,
  either the window is at the first row or it starts at least two rows and one
  entry before the catalog's end (\<open>5 * ScreenIndx + 10 < entries.size()\<close>).
  So \<open>DrawGrid\<close>'s loop bound \<open>15 + 5 * ScreenIndx\<close> exceeds the entry count
  by at most 4, and fits in an \<open>int\<close> for every catalog of at most
  \<open>2^31 - 5\<close> entries (the premise of the renderer claims of
  \<open>Grid_Draw32\<close>).
\<close>

theorem reachable_window_fits:
  "reachable sz s \<Longrightarrow> screen_indx s = 0 \<or> 5 * screen_indx s + 10 < int_of_size sz"
  by (rule reachable_fits)

theorem reachable_window_fits_witness:
  "reachable 20 (nav_frame (key_mask KeyDown) 20 (nav_frame (key_mask KeyDown) 20 (nav_frame (key_mask KeyDown) 20 init_store))) \<and>
   screen_indx (nav_frame (key_mask KeyDown) 20 (nav_frame (key_mask KeyDown) 20 (nav_frame (key_mask KeyDown) 20 init_store))) = 1 \<and>
   5 * 1 + 10 < int_of_size 20"
proof -
  have r: "reachable 20 (nav_frame (key_mask KeyDown) 20 (nav_frame (key_mask KeyDown) 20 (nav_frame (key_mask KeyDown) 20 init_store)))"
    by (intro reachable.frame reachable.start) (simp add: int_of_size_def)
  have st: "nav_frame (key_mask KeyDown) 20 (nav_frame (key_mask KeyDown) 20 (nav_frame (key_mask KeyDown) 20 init_store)) =
      \<lparr>box = 10, entry = 15, screen_indx = 1\<rparr>"
    by (simp add: nav_frame_def held_mask key_down_def init_store_def int_of_size_def Let_def signed_divide_int_def)
  from r reachable_window_fits [OF r] st show ?thesis by (simp add: int_of_size_def)
qed

end
