(* ===== verification/Grid_Draw.thy ===== *)
theory Grid_Draw
  imports Grid_State "HOL-Library.Monad_Syntax"
begin

text \<open>
  The grid renderer, \<open>StoreUtils::DrawGrid\<close> (src/source/store/grid.cpp,
  lines 30-86). A frame's drawing is modelled as the list of draw calls it
  issues, in order: the background (the store's image or a rectangle), then for
  each visible entry the highlight box of the selected cell, the entry's icon
  centred in its cell and the update mark. \<open>std::vector::operator[]\<close> out of
  range is undefined behaviour in C++; the model returns \<open>None\<close> there, so
  that "the frame is drawn" is the statement \<open>draw_grid \<dots> \<noteq> None\<close>.
  An entry is \<open>None\<close> for a null \<open>unique_ptr\<close>. \<open>draw_grid\<close> reads the
  store's fields as unbounded integers, so its loop bounds
  \<open>5 * ScreenIndx\<close> and \<open>15 + 5 * ScreenIndx\<close> never wrap; \<open>Grid_Draw32\<close>
  computes them at 32 bits and proves the two agree exactly while they fit in
  an \<open>int\<close>.
\<close>

record button_pos =
  pos_x :: int
  pos_y :: int
  pos_w :: int
  pos_h :: int

record store_entry =
  icon_w :: u16
  icon_h :: u16
  update_avl :: bool

datatype draw_cmd =
    DrawStoreImg int int
  | DrawRect int int int int
  | DrawBox int int int int bool
  | DrawIcon nat int int
  | DrawUpdateMark int int

definition GridBoxes :: "button_pos list" where
  "GridBoxes =
     [\<lparr>pos_x = 25, pos_y = 45, pos_w = 50, pos_h = 50\<rparr>,
      \<lparr>pos_x = 100, pos_y = 45, pos_w = 50, pos_h = 50\<rparr>,
      \<lparr>pos_x = 175, pos_y = 45, pos_w = 50, pos_h = 50\<rparr>,
      \<lparr>pos_x = 250, pos_y = 45, pos_w = 50, pos_h = 50\<rparr>,
      \<lparr>pos_x = 325, pos_y = 45, pos_w = 50, pos_h = 50\<rparr>,
      \<lparr>pos_x = 25, pos_y = 105, pos_w = 50, pos_h = 50\<rparr>,
      \<lparr>pos_x = 100, pos_y = 105, pos_w = 50, pos_h = 50\<rparr>,
      \<lparr>pos_x = 175, pos_y = 105, pos_w = 50, pos_h = 50\<rparr>,
      \<lparr>pos_x = 250, pos_y = 105, pos_w = 50, pos_h = 50\<rparr>,
      \<lparr>pos_x = 325, pos_y = 105, pos_w = 50, pos_h = 50\<rparr>,
      \<lparr>pos_x = 25, pos_y = 165, pos_w = 50, pos_h = 50\<rparr>,
      \<lparr>pos_x = 100, pos_y = 165, pos_w = 50, pos_h = 50\<rparr>,
      \<lparr>pos_x = 175, pos_y = 165, pos_w = 50, pos_h = 50\<rparr>,
      \<lparr>pos_x = 250, pos_y = 165, pos_w = 50, pos_h = 50\<rparr>,
      \<lparr>pos_x = 325, pos_y = 165, pos_w = 50, pos_h = 50\<rparr>]"

text \<open>\<open>v[i]\<close> on a \<open>std::vector\<close> with an \<open>int\<close> index: defined only in range.\<close>

definition vec_at :: "'a list \<Rightarrow> int \<Rightarrow> 'a option" where
  "vec_at xs i = (if 0 \<le> i \<and> i < int (length xs) then Some (xs ! nat i) else None)"

text \<open>
  \<open>const uint8_t offsetW = (48 - tempImg.subtex->width) / 2\<close>: the \<open>u16\<close>
  width is promoted to \<open>int\<close>, the difference divided with truncation, and the
  quotient converted to \<open>uint8_t\<close> modulo 256.
\<close>

definition icon_offset :: "u16 \<Rightarrow> u8" where
  "icon_offset w = word_of_int ((48 - uint w) sdiv 2)"

text \<open>The body of the draw loop for cell \<open>i\<close> and entry index \<open>i2\<close> (lines 68-83).\<close>

definition draw_cell :: "int \<Rightarrow> store_entry option list \<Rightarrow> int \<Rightarrow> int \<Rightarrow> draw_cmd list option" where
  "draw_cell b es i i2 = do {
     hl \<leftarrow> (if i = b then do { p \<leftarrow> vec_at GridBoxes i; Some [DrawBox (pos_x p) (pos_y p) 50 50 True] }
           else Some []);
     body \<leftarrow> (if int_of_size (size_of_list es) > i2 then do {
                e \<leftarrow> vec_at es i2;
                (case e of
                   None \<Rightarrow> Some []
                 | Some ent \<Rightarrow> do {
                     p \<leftarrow> vec_at GridBoxes i;
                     Some (DrawIcon (nat i2) (pos_x p + 1 + uint (icon_offset (icon_w ent)))
                             (pos_y p + 1 + uint (icon_offset (icon_h ent))) #
                           (if update_avl ent then [DrawUpdateMark (pos_x p + 32) (pos_y p + 32)] else []))
                   })
              }
              else Some []);
     Some (hl @ body)
   }"

text \<open>
  The loop of line 66: \<open>i\<close> counts cells from 0, \<open>i2\<close> entries from
  \<open>5 * ScreenIndx\<close>, while \<open>i2 < 15 + 5 * ScreenIndx\<close> and
  \<open>i2 < (int)entries.size()\<close>. It stops because \<open>hi - i2\<close> decreases.
\<close>

function draw_loop :: "int \<Rightarrow> store_entry option list \<Rightarrow> int \<Rightarrow> int \<Rightarrow> int \<Rightarrow> draw_cmd list option" where
  "draw_loop b es hi i i2 =
     (if i2 < hi \<and> i2 < int_of_size (size_of_list es) then do {
        c \<leftarrow> draw_cell b es i i2;
        r \<leftarrow> draw_loop b es hi (i + 1) (i2 + 1);
        Some (c @ r)
      }
      else Some [])"
  by pat_completeness auto
termination
  by (relation "measure (\<lambda>(b, es, hi, i, i2). nat (hi - i2))") auto

declare draw_loop.simps [simp del]

definition draw_grid :: "bool \<Rightarrow> bool \<Rightarrow> store option \<Rightarrow> store_entry option list \<Rightarrow> draw_cmd list option" where
  "draw_grid usebg customBG st es =
     (case st of
        None \<Rightarrow> Some []
      | Some s \<Rightarrow>
          map_option ((#) (if usebg \<and> customBG then DrawStoreImg 0 26 else DrawRect 0 26 400 214))
            (draw_loop (box s) es (15 + screen_indx s * 5) 0 (screen_indx s * 5)))"

subsection \<open>The loop as a map over the visible entries\<close>

text \<open>
  Where every read is in range, one cell's draw calls are a plain function of
  the cell and the entry index, and the loop concatenates them over the visible
  entries.
\<close>

fun is_highlight :: "draw_cmd \<Rightarrow> bool" where
  "is_highlight (DrawBox _ _ _ _ _) = True"
| "is_highlight _ = False"

fun icon_of :: "draw_cmd \<Rightarrow> nat option" where
  "icon_of (DrawIcon k _ _) = Some k"
| "icon_of _ = None"

fun mark_of :: "draw_cmd \<Rightarrow> (int \<times> int) option" where
  "mark_of (DrawUpdateMark x y) = Some (x, y)"
| "mark_of _ = None"

text \<open>
  The layout the fifteen boxes are meant to have: cell \<open>k\<close> in row
  \<open>k div 5\<close> and column \<open>k mod 5\<close> (spec section 3), 50 pixels square,
  75 pixels apart horizontally and 60 vertically.
\<close>

definition cell_box :: "nat \<Rightarrow> button_pos" where
  "cell_box k = \<lparr>pos_x = 25 + 75 * int (k mod 5), pos_y = 45 + 60 * int (k div 5), pos_w = 50, pos_h = 50\<rparr>"

definition cell_cmds :: "int \<Rightarrow> store_entry option list \<Rightarrow> int \<Rightarrow> nat \<Rightarrow> draw_cmd list" where
  "cell_cmds b es i k =
     (let p = GridBoxes ! nat i in
      (if i = b then [DrawBox (pos_x p) (pos_y p) 50 50 True] else []) @
      (case es ! k of
         None \<Rightarrow> []
       | Some ent \<Rightarrow>
           DrawIcon k (pos_x p + 1 + uint (icon_offset (icon_w ent)))
             (pos_y p + 1 + uint (icon_offset (icon_h ent))) #
           (if update_avl ent then [DrawUpdateMark (pos_x p + 32) (pos_y p + 32)] else [])))"

lemma length_GridBoxes [simp]: "length GridBoxes = 15"
  by (simp add: GridBoxes_def)

lemma GridBoxes_cell_box: "GridBoxes = map cell_box [0..<15]"
  by (simp add: GridBoxes_def cell_box_def upt_rec)

lemma marks_cell:
  "List.map_filter mark_of (cell_cmds b es i k) =
     (case es ! k of
        Some ent \<Rightarrow> (if update_avl ent then [(pos_x (GridBoxes ! nat i) + 32, pos_y (GridBoxes ! nat i) + 32)] else [])
      | None \<Rightarrow> [])"
  by (simp add: cell_cmds_def Let_def map_filter_def split: option.split)

lemma draw_cell_icon:
  assumes "draw_cell b es i i2 = Some cmds" and "DrawIcon k x y \<in> set cmds"
  shows "\<exists>ent. 0 \<le> i \<and> i < 15 \<and> k = nat i2 \<and> es ! k = Some ent \<and>
           x = pos_x (GridBoxes ! nat i) + 1 + uint (icon_offset (icon_w ent)) \<and>
           y = pos_y (GridBoxes ! nat i) + 1 + uint (icon_offset (icon_h ent))"
  using assms by (auto simp: draw_cell_def vec_at_def split: if_splits option.splits)

lemma int_of_size_le_length: "int_of_size (size_of_list xs) \<le> int (length xs)"
proof -
  have "signed_take_bit 31 (int (length xs)) \<le> take_bit 32 (int (length xs))"
    by (simp add: signed_take_bit_eq_take_bit_minus)
  also have "\<dots> \<le> int (length xs)" by (simp add: take_bit_int_less_eq_self_iff)
  finally show ?thesis by (simp add: int_of_size_def size_of_list_def signed_of_nat)
qed

lemma draw_cell_eq:
  assumes "0 \<le> i" "i < 15" "int k < int_of_size (size_of_list es)"
  shows "draw_cell b es i (int k) = Some (cell_cmds b es i k)"
proof -
  from assms(3) int_of_size_le_length [of es] have "k < length es" by simp
  with assms show ?thesis
    by (simp add: draw_cell_def cell_cmds_def vec_at_def Let_def split: option.split)
qed

lemma draw_loop_eq:
  "0 \<le> off \<Longrightarrow> off \<le> i2 \<Longrightarrow> i = i2 - off \<Longrightarrow> hi = off + 15 \<Longrightarrow>
   draw_loop b es hi i i2 =
     Some (concat (map (\<lambda>k. cell_cmds b es (int k - off) k)
       [nat i2 ..< nat (min hi (int_of_size (size_of_list es)))]))"
proof (induction b es hi i i2 rule: draw_loop.induct)
  case (1 b es hi i i2)
  show ?case
  proof (cases "i2 < hi \<and> i2 < int_of_size (size_of_list es)")
    case True
    with "1.prems" have cell: "draw_cell b es i i2 = Some (cell_cmds b es (int (nat i2) - off) (nat i2))"
      using draw_cell_eq [of i "nat i2" es b] by simp
    from True "1.prems" have rest: "draw_loop b es hi (i + 1) (i2 + 1) =
        Some (concat (map (\<lambda>k. cell_cmds b es (int k - off) k)
          [nat (i2 + 1) ..< nat (min hi (int_of_size (size_of_list es)))]))"
      by (intro "1.IH" [OF _ cell]) auto
    from True "1.prems" have "[nat i2 ..< nat (min hi (int_of_size (size_of_list es)))] =
        nat i2 # [nat (i2 + 1) ..< nat (min hi (int_of_size (size_of_list es)))]"
      by (simp add: upt_conv_Cons nat_add_distrib)
    with True cell rest show ?thesis by (simp add: draw_loop.simps [of b es hi i i2])
  next
    case False
    then show ?thesis by (auto simp: draw_loop.simps [of b es hi i i2])
  qed
qed

lemma draw_grid_eq:
  assumes "0 \<le> screen_indx s"
  shows "draw_grid u c (Some s) es =
           Some ((if u \<and> c then DrawStoreImg 0 26 else DrawRect 0 26 400 214) #
             concat (map (\<lambda>k. cell_cmds (box s) es (int k - 5 * screen_indx s) k)
               [nat (5 * screen_indx s) ..< nat (min (5 * screen_indx s + 15) (int_of_size (size_of_list es)))]))"
  using assms draw_loop_eq [of "5 * screen_indx s" "screen_indx s * 5" 0 "15 + screen_indx s * 5"
      "box s" es]
  by (simp add: draw_grid_def algebra_simps)

lemma map_filter_concat: "List.map_filter f (concat xss) = concat (map (List.map_filter f) xss)"
  by (induction xss) (simp_all add: map_filter_def)

lemma icons_cell: "List.map_filter icon_of (cell_cmds b es i k) = (if es ! k = None then [] else [k])"
  by (simp add: cell_cmds_def Let_def map_filter_def split: option.split)

lemma highlights_cell:
  "filter is_highlight (cell_cmds b es i k) =
     (if i = b then [DrawBox (pos_x (GridBoxes ! nat i)) (pos_y (GridBoxes ! nat i)) 50 50 True] else [])"
  by (simp add: cell_cmds_def Let_def split: option.split)

lemma icon_offset_small:
  "uint w \<le> 48 \<Longrightarrow> uint (icon_offset w) = (48 - uint w) div 2"
proof -
  assume "uint w \<le> 48"
  moreover have "0 \<le> uint w" by simp
  ultimately have "0 \<le> (48 - uint w) div 2" and "(48 - uint w) div 2 < 256" by presburger+
  then show ?thesis
    by (simp add: icon_offset_def sdiv_nonneg uint_word_of_int_eq take_bit_int_eq_self_iff)
qed

lemma icon_span:
  "uint w \<le> 48 \<Longrightarrow> 0 < 1 + uint (icon_offset w) \<and> 1 + uint (icon_offset w) + uint w < 50"
proof -
  assume small: "uint w \<le> 48"
  have "0 \<le> uint w" by simp
  with small have "0 \<le> (48 - uint w) div 2" and "1 + (48 - uint w) div 2 + uint w < 50" by presburger+
  with small show ?thesis by (simp add: icon_offset_small)
qed

lemma visible_range:
  assumes "0 \<le> screen_indx s" "length es < 2 ^ 31"
  shows "[nat (5 * screen_indx s) ..< nat (min (5 * screen_indx s + 15) (int_of_size (size_of_list es)))] =
         [nat (page_offset s) ..< min (nat (page_offset s) + 15) (length es)]"
  using assms by (auto simp: int_of_size_list page_offset_def min_def nat_add_distrib)

lemma grid_inv_row_nonneg: "grid_inv sz s \<Longrightarrow> 0 \<le> screen_indx s"
  by (simp add: grid_inv_def)

lemma grid_inv_selected_visible:
  assumes "grid_inv (size_of_list es) s" and "es \<noteq> []" and "length es < 2 ^ 31"
  shows "nat (entry s) \<in> set [nat (page_offset s) ..< min (nat (page_offset s) + 15) (length es)] \<and>
         int (nat (entry s)) - 5 * screen_indx s = box s"
  using assms by (auto simp: grid_inv_def int_of_size_list page_offset_def)

lemma highlight_of_visible:
  assumes "grid_inv (size_of_list es) s" and "es \<noteq> []" and "length es < 2 ^ 31"
  shows "filter is_highlight (concat (map (\<lambda>k. cell_cmds (box s) es (int k - 5 * screen_indx s) k)
           [nat (page_offset s) ..< min (nat (page_offset s) + 15) (length es)])) =
         [DrawBox (pos_x (GridBoxes ! nat (box s))) (pos_y (GridBoxes ! nat (box s))) 50 50 True]"
proof -
  let ?off = "5 * screen_indx s"
  let ?hl = "\<lambda>k. [DrawBox (pos_x (GridBoxes ! nat (int k - ?off))) (pos_y (GridBoxes ! nat (int k - ?off))) 50 50 True]"
  from assms have inv: "0 \<le> screen_indx s" "0 \<le> box s" "box s \<le> 14"
      "entry s = ?off + box s" "entry s < int (length es)"
    by (auto simp: grid_inv_def int_of_size_list)
  have "filter is_highlight (concat (map (\<lambda>k. cell_cmds (box s) es (int k - ?off) k) ks)) =
        concat (map (\<lambda>k. if k = nat (entry s) then ?hl k else []) ks)" for ks
    using inv by (induction ks) (auto simp: highlights_cell)
  moreover have "concat (map (\<lambda>k. if k = nat (entry s) then ?hl k else [])
      [nat (page_offset s) ..< min (nat (page_offset s) + 15) (length es)]) = ?hl (nat (entry s))"
    using inv by (intro concat_map_upt_single) (auto simp: page_offset_def)
  ultimately show ?thesis using inv by simp
qed

subsection \<open>The renderer on integer fields\<close>

text \<open>
  What \<open>draw_grid\<close> draws, with the store's fields read as unbounded
  integers. \<open>Grid_Draw32\<close> shows that this is what \<open>DrawGrid\<close> draws at
  the machine's width whenever \<open>5 * ScreenIndx\<close> and \<open>15 + 5 * ScreenIndx\<close>
  do not overflow, and states the renderer's claims there.
\<close>

lemma draw_grid_some: "0 \<le> screen_indx s \<Longrightarrow> draw_grid u c (Some s) es \<noteq> None"
  by (simp add: draw_grid_eq)

lemma draw_grid_icons_eq:
  assumes "0 \<le> screen_indx s" and "length es < 2 ^ 31"
  shows "map_option (List.map_filter icon_of) (draw_grid u c (Some s) es) =
           Some (filter (\<lambda>k. es ! k \<noteq> None)
             [nat (page_offset s) ..< min (nat (page_offset s) + 15) (length es)])"
proof -
  have "List.map_filter icon_of (concat (map (\<lambda>k. cell_cmds (box s) es (int k - 5 * screen_indx s) k) ks)) =
        filter (\<lambda>k. es ! k \<noteq> None) ks" for ks
  proof -
    have "List.map_filter icon_of (concat (map (\<lambda>k. cell_cmds (box s) es (int k - 5 * screen_indx s) k) ks)) =
          concat (map (\<lambda>k. if es ! k = None then [] else [k]) ks)"
      by (simp add: map_filter_concat comp_def icons_cell)
    also have "\<dots> = filter (\<lambda>k. es ! k \<noteq> None) ks"
      by (induction ks) auto
    finally show ?thesis .
  qed
  with assms show ?thesis
    by (simp add: draw_grid_eq visible_range [symmetric] map_filter_def)
qed

lemma draw_grid_highlight_eq:
  assumes "grid_inv (size_of_list es) s" and "es \<noteq> []" and "length es < 2 ^ 31"
  shows "map_option (filter is_highlight) (draw_grid u c (Some s) es) =
           Some [DrawBox (pos_x (GridBoxes ! nat (box s))) (pos_y (GridBoxes ! nat (box s))) 50 50 True]"
  using assms highlight_of_visible [OF assms] grid_inv_row_nonneg [OF assms(1)]
  by (simp add: draw_grid_eq visible_range [symmetric])

lemma draw_cell_negative:
  "i2 < 0 \<Longrightarrow> int_of_size (size_of_list es) > i2 \<Longrightarrow> draw_cell b es i i2 = None"
  by (simp add: draw_cell_def vec_at_def split: if_split)

lemma draw_grid_negative_none:
  assumes "screen_indx s < 0" and "length es < 2 ^ 31"
  shows "draw_grid u c (Some s) es = None"
proof -
  have n: "int_of_size (size_of_list es) = int (length es)" using assms(2) by (rule int_of_size_list)
  have "draw_cell (box s) es 0 (screen_indx s * 5) = None"
    using assms(1) n by (intro draw_cell_negative) simp_all
  moreover have "screen_indx s * 5 < 15 + screen_indx s * 5 \<and> screen_indx s * 5 < int_of_size (size_of_list es)"
    using assms(1) n by simp
  ultimately have "draw_loop (box s) es (15 + screen_indx s * 5) 0 (screen_indx s * 5) = None"
    by (subst draw_loop.simps) simp
  then show ?thesis by (simp add: draw_grid_def)
qed

lemma draw_grid_marks_eq:
  assumes "0 \<le> screen_indx s" and "length es < 2 ^ 31"
  shows "map_option (List.map_filter mark_of) (draw_grid u c (Some s) es) =
           Some (map (\<lambda>k. (pos_x (GridBoxes ! (k - nat (page_offset s))) + 32,
                            pos_y (GridBoxes ! (k - nat (page_offset s))) + 32))
             (filter (\<lambda>k. case es ! k of Some ent \<Rightarrow> update_avl ent | None \<Rightarrow> False)
               [nat (page_offset s) ..< min (nat (page_offset s) + 15) (length es)]))"
proof -
  let ?off = "5 * screen_indx s"
  let ?mark = "\<lambda>k. (pos_x (GridBoxes ! (k - nat (page_offset s))) + 32,
                     pos_y (GridBoxes ! (k - nat (page_offset s))) + 32)"
  let ?upd = "\<lambda>k. case es ! k of Some ent \<Rightarrow> update_avl ent | None \<Rightarrow> False"
  let ?vis = "[nat (page_offset s) ..< min (nat (page_offset s) + 15) (length es)]"
  have "\<forall>k \<in> set ks. nat (page_offset s) \<le> k \<Longrightarrow>
        concat (map (\<lambda>k. List.map_filter mark_of (cell_cmds (box s) es (int k - ?off) k)) ks) =
        map ?mark (filter ?upd ks)" for ks
    using assms(1)
    by (induction ks) (auto simp: marks_cell nat_diff_distrib page_offset_def split: option.split)
  then have "List.map_filter mark_of (concat (map (\<lambda>k. cell_cmds (box s) es (int k - ?off) k) ?vis)) =
        map ?mark (filter ?upd ?vis)"
    by (simp add: map_filter_concat comp_def)
  moreover have "draw_grid u c (Some s) es =
      Some ((if u \<and> c then DrawStoreImg 0 26 else DrawRect 0 26 400 214) #
        concat (map (\<lambda>k. cell_cmds (box s) es (int k - ?off) k) ?vis))"
    using assms by (simp add: draw_grid_eq visible_range)
  ultimately show ?thesis by simp
qed

lemma draw_grid_empty_eq:
  "0 \<le> screen_indx s \<Longrightarrow>
   draw_grid u c (Some s) [] = Some [if u \<and> c then DrawStoreImg 0 26 else DrawRect 0 26 400 214]"
  by (simp add: draw_grid_def draw_loop.simps size_of_list_def int_of_size_def)

lemma sdiv_two_negative: "(k::int) < 0 \<Longrightarrow> k sdiv 2 = - ((- k) div 2)"
  by (simp add: signed_divide_int_def sgn_if)

lemma half_bounds: "2 \<le> (y::int) \<Longrightarrow> y \<le> 513 \<Longrightarrow> 1 \<le> y div 2 \<and> y div 2 \<le> 256"
proof -
  assume "2 \<le> y" "y \<le> 513"
  moreover have "y = 2 * (y div 2) + y mod 2" by simp
  moreover have "0 \<le> y mod 2" "y mod 2 < 2" by simp_all
  ultimately show ?thesis by linarith
qed

lemma neg_mod_256: "1 \<le> (k::int) \<Longrightarrow> k \<le> 256 \<Longrightarrow> (- k) mod 256 = 256 - k"
proof (cases "k = 256")
  case False
  assume "1 \<le> k" "k \<le> 256"
  with False have "k mod 256 = k" by (simp add: mod_pos_pos_trivial)
  with False \<open>1 \<le> k\<close> show ?thesis by (simp add: zmod_zminus1_eq_if)
qed simp

subsection \<open>Claims on icons\<close>

text \<open>
  C23. For icons at most 48 pixels wide the \<open>uint8_t\<close> offset is the centring
  offset \<open>(48 - width) div 2\<close>, at most 24, so the icon starts inside its cell.
\<close>

theorem icon_offset_centered:
  "uint w \<le> 48 \<Longrightarrow> uint (icon_offset w) = (48 - uint w) div 2 \<and> uint (icon_offset w) \<le> 24"
proof -
  assume small: "uint w \<le> 48"
  have "0 \<le> uint w" by simp
  with small have "(48 - uint w) div 2 \<le> 24" by presburger
  with small show ?thesis by (simp add: icon_offset_small)
qed

theorem icon_offset_centered_witness:
  "uint (40::u16) \<le> 48 \<and> uint (icon_offset 40) = 4 \<and> uint (icon_offset 40) \<le> 24"
  using icon_offset_centered [of 40] by simp

text \<open>
  C24. For wider icons the \<open>uint8_t\<close> offset wraps: for every width from 50
  to 561 pixels, C's \<open>(48 - width) / 2\<close> is negative and \<open>offsetW\<close> is
  \<open>256 - (width - 48) / 2\<close>, between 0 and 255, so the icon is drawn up to
  255 pixels to the right of (or below) its cell instead of centred on it.
\<close>

theorem icon_offset_wraps:
  assumes "50 \<le> uint w" and "uint w \<le> 561"
  shows "uint (icon_offset w) = 256 - (uint w - 48) div 2"
proof -
  let ?k = "(uint w - 48) div 2"
  from assms have k: "1 \<le> ?k" "?k \<le> 256" using half_bounds [of "uint w - 48"] by simp_all
  from assms have q: "(48 - uint w) sdiv 2 = - ?k" by (simp add: sdiv_two_negative)
  have "uint (icon_offset w) = uint (word_of_int (- ?k) :: u8)"
    by (simp only: icon_offset_def q)
  also have "\<dots> = take_bit 8 (- ?k)" by (simp only: uint_word_of_int_eq) simp
  also have "\<dots> = (- ?k) mod 256" by (simp add: take_bit_eq_mod)
  also from k have "\<dots> = 256 - ?k" by (rule neg_mod_256)
  finally show ?thesis .
qed

theorem icon_offset_wraps_witness:
  "50 \<le> uint (64::u16) \<and> uint (64::u16) \<le> 561 \<and> uint (icon_offset 64) = 248"
  using icon_offset_wraps [of 64] by simp

text \<open>
  C38. Icons no larger than the 48-pixel slot are drawn strictly inside their
  grid box: the icon's left and top edges lie past the box's, and its right
  and bottom edges (the offsets plus the icon's width and height) before the
  box's, so an icon never spills onto the neighbouring cell.
\<close>

theorem icon_inside_box:
  assumes "draw_cell b es i i2 = Some cmds" and "DrawIcon k x y \<in> set cmds" and "es ! k = Some ent"
    and "uint (icon_w ent) \<le> 48" and "uint (icon_h ent) \<le> 48"
  shows "pos_x (GridBoxes ! nat i) < x \<and> x + uint (icon_w ent) < pos_x (GridBoxes ! nat i) + pos_w (GridBoxes ! nat i) \<and>
         pos_y (GridBoxes ! nat i) < y \<and> y + uint (icon_h ent) < pos_y (GridBoxes ! nat i) + pos_h (GridBoxes ! nat i)"
proof -
  obtain ent' where e: "0 \<le> i" "i < 15" "es ! k = Some ent'"
    and x: "x = pos_x (GridBoxes ! nat i) + 1 + uint (icon_offset (icon_w ent'))"
    and y: "y = pos_y (GridBoxes ! nat i) + 1 + uint (icon_offset (icon_h ent'))"
    using draw_cell_icon [OF assms(1,2)] by blast
  from e(3) assms(3) have "ent' = ent" by simp
  moreover have "pos_w (GridBoxes ! nat i) = 50" "pos_h (GridBoxes ! nat i) = 50"
    using e(1,2) by (simp_all add: GridBoxes_cell_box cell_box_def)
  ultimately show ?thesis using x y icon_span [OF assms(4)] icon_span [OF assms(5)] by simp
qed

theorem icon_inside_box_witness:
  "draw_cell 0 [Some \<lparr>icon_w = 40, icon_h = 48, update_avl = False\<rparr>] 0 0 = Some [DrawBox 25 45 50 50 True, DrawIcon 0 30 46] \<and>
   DrawIcon 0 30 46 \<in> set [DrawBox 25 45 50 50 True, DrawIcon 0 30 46] \<and>
   [Some \<lparr>icon_w = 40, icon_h = 48, update_avl = False\<rparr>] ! 0 = Some \<lparr>icon_w = 40, icon_h = 48, update_avl = False\<rparr> \<and>
   uint (40::u16) \<le> 48 \<and> uint (48::u16) \<le> 48 \<and>
   (25::int) < 30 \<and> 30 + uint (40::u16) < 25 + 50 \<and> (45::int) < 46 \<and> 46 + uint (48::u16) < 45 + 50"
proof -
  have c: "draw_cell 0 [Some \<lparr>icon_w = 40, icon_h = 48, update_avl = False\<rparr>] 0 0 = Some [DrawBox 25 45 50 50 True, DrawIcon 0 30 46]"
    by (simp add: draw_cell_def vec_at_def GridBoxes_def icon_offset_def size_of_list_def int_of_size_def)
  have "(25::int) < 30 \<and> 30 + uint (40::u16) < 25 + 50 \<and> (45::int) < 46 \<and> 46 + uint (48::u16) < 45 + 50"
    using icon_inside_box [OF c, of 0 30 46 "\<lparr>icon_w = 40, icon_h = 48, update_avl = False\<rparr>"]
    by (simp add: GridBoxes_def)
  with c show ?thesis by simp
qed

end
