(* ===== verification/Grid_Draw_Loop.thy ===== *)
theory Grid_Draw_Loop
  imports Grid_Draw "HOL-Library.While_Combinator"
begin

text \<open>
  The loop of \<open>DrawGrid\<close> (src/source/store/grid.cpp, line 66) as the
  source writes it: a \<open>for\<close> loop over the state \<open>(i, i2)\<close>, here with the
  list of draw calls issued so far (\<open>None\<close> once a read was out of range),
  run by \<open>while_option\<close> with the loop condition \<open>draw_cond\<close> and the body
  plus increments \<open>draw_step\<close>. The theory shows that the loop terminates from
  every state, after exactly as many iterations as there are visible entries,
  and that it issues the same draw calls as the recursive \<open>draw_loop\<close> of
  \<open>Grid_Draw\<close>, on which the renderer claims are proved.
\<close>

type_synonym loop_state = "int \<times> int \<times> draw_cmd list option"

definition draw_cond :: "store_entry option list \<Rightarrow> int \<Rightarrow> loop_state \<Rightarrow> bool" where
  "draw_cond es hi = (\<lambda>(i, i2, acc). i2 < hi \<and> i2 < int_of_size (size_of_list es))"

definition draw_step :: "int \<Rightarrow> store_entry option list \<Rightarrow> loop_state \<Rightarrow> loop_state" where
  "draw_step b es = (\<lambda>(i, i2, acc).
     (i + 1, i2 + 1, do { a \<leftarrow> acc; c \<leftarrow> draw_cell b es i i2; Some (a @ c) }))"

definition draw_for ::
  "int \<Rightarrow> store_entry option list \<Rightarrow> int \<Rightarrow> int \<Rightarrow> int \<Rightarrow> loop_state option" where
  "draw_for b es hi i i2 = while_option (draw_cond es hi) (draw_step b es) (i, i2, Some [])"

lemma draw_for_Some:
  "\<exists>t. while_option (draw_cond es hi) (draw_step b es) s = Some t"
  by (rule measure_while_option_Some [where P = "\<lambda>_. True" and f = "\<lambda>(i, i2, acc). nat (hi - i2)"])
    (auto simp: draw_cond_def draw_step_def)

lemma draw_for_counts:
  assumes "while_option (draw_cond es hi) (draw_step b es) (i, i2, a) = Some (i', i2', a')"
  shows "i' - i = i2' - i2 \<and> i2' = max i2 (min hi (int_of_size (size_of_list es)))"
proof -
  let ?n = "int_of_size (size_of_list es)"
  let ?P = "\<lambda>(j, j2, _). j - i = j2 - i2 \<and> i2 \<le> j2 \<and> j2 \<le> max i2 (min hi ?n)"
  have "?P (i', i2', a')"
    by (rule while_option_rule [OF _ assms]) (auto simp: draw_cond_def draw_step_def)
  moreover have "\<not> draw_cond es hi (i', i2', a')" by (rule while_option_stop [OF assms])
  ultimately show ?thesis by (auto simp: draw_cond_def)
qed

lemma draw_for_None:
  assumes "while_option (draw_cond es hi) (draw_step b es) (i, i2, None) = Some (i', i2', a')"
  shows "a' = None"
proof -
  have "(\<lambda>(_, _, acc). acc = None) (i', i2', a')"
    by (rule while_option_rule [OF _ assms]) (auto simp: draw_step_def)
  then show ?thesis by simp
qed

lemma draw_for_loop:
  "\<exists>i' i2'. while_option (draw_cond es hi) (draw_step b es) (i, i2, Some x) =
     Some (i', i2', map_option ((@) x) (draw_loop b es hi i i2))"
proof (induction b es hi i i2 arbitrary: x rule: draw_loop.induct)
  case (1 b es hi i i2)
  show ?case
  proof (cases "draw_cond es hi (i, i2, Some x)")
    case False
    then have "while_option (draw_cond es hi) (draw_step b es) (i, i2, Some x) = Some (i, i2, Some x)"
      by (simp add: while_option_unfold [of _ _ "(i, i2, Some x)"])
    moreover from False have "draw_loop b es hi i i2 = Some []"
      by (auto simp: draw_loop.simps [of b es hi i i2] draw_cond_def)
    ultimately show ?thesis by simp
  next
    case cond: True
    then have unf: "while_option (draw_cond es hi) (draw_step b es) (i, i2, Some x) =
        while_option (draw_cond es hi) (draw_step b es) (draw_step b es (i, i2, Some x))"
      by (simp add: while_option_unfold [of _ _ "(i, i2, Some x)"])
    show ?thesis
    proof (cases "draw_cell b es i i2")
      case None
      obtain i' i2' a' where t: "while_option (draw_cond es hi) (draw_step b es) (i + 1, i2 + 1, None) =
          Some (i', i2', a')"
        using draw_for_Some by (metis prod_cases3)
      with cond None unf show ?thesis
        by (auto simp: draw_step_def draw_loop.simps [of b es hi i i2] draw_cond_def draw_for_None [OF t])
    next
      case (Some c)
      have c': "i2 < hi \<and> i2 < int_of_size (size_of_list es)" using cond by (simp add: draw_cond_def)
      obtain i' i2' where
        "while_option (draw_cond es hi) (draw_step b es) (i + 1, i2 + 1, Some (x @ c)) =
         Some (i', i2', map_option ((@) (x @ c)) (draw_loop b es hi (i + 1) (i2 + 1)))"
        using "1.IH" [OF c' Some, of "x @ c"] by blast
      moreover have "map_option ((@) x) (draw_loop b es hi i i2) =
          map_option ((@) (x @ c)) (draw_loop b es hi (i + 1) (i2 + 1))"
        using c' Some
        by (cases "draw_loop b es hi (i + 1) (i2 + 1)") (simp_all add: draw_loop.simps [of b es hi i i2])
      moreover have "draw_step b es (i, i2, Some x) = (i + 1, i2 + 1, Some (x @ c))"
        by (simp add: draw_step_def Some)
      ultimately show ?thesis using unf by simp
    qed
  qed
qed

subsection \<open>Claims\<close>

text \<open>
  C30. The draw loop terminates from every start, whatever the entries and the
  bound: it stops with \<open>i2\<close> at the smaller of \<open>15 + 5 * ScreenIndx\<close> and
  \<open>(int)entries.size()\<close> (or where it started, when that is already past
  them), having advanced \<open>i\<close> by as many steps as \<open>i2\<close>.
\<close>

theorem draw_for_terminates:
  "\<exists>acc. draw_for b es hi i i2 =
     Some (i + (max i2 (min hi (int_of_size (size_of_list es))) - i2),
           max i2 (min hi (int_of_size (size_of_list es))), acc)"
proof -
  obtain i' i2' a where t: "draw_for b es hi i i2 = Some (i', i2', a)"
    using draw_for_Some [of es hi b "(i, i2, Some [])"] by (auto simp: draw_for_def)
  then have "i' - i = i2' - i2 \<and> i2' = max i2 (min hi (int_of_size (size_of_list es)))"
    unfolding draw_for_def by (rule draw_for_counts)
  with t show ?thesis by auto
qed

text \<open>
  The \<open>for\<close> loop as written and the recursive \<open>draw_loop\<close> issue the same
  draw calls, in the same order, and fail on the same out-of-range reads: the
  renderer's claims, proved on \<open>draw_loop\<close>, are claims on the loop as written.
\<close>

lemma draw_for_loop_eq:
  "map_option (\<lambda>(_, _, acc). acc) (draw_for b es hi i i2) = Some (draw_loop b es hi i i2)"
proof -
  obtain i' i2' where "draw_for b es hi i i2 = Some (i', i2', map_option ((@) []) (draw_loop b es hi i i2))"
    using draw_for_loop [of es hi b i i2 "[]"] by (auto simp: draw_for_def)
  moreover have "map_option ((@) []) (draw_loop b es hi i i2) = draw_loop b es hi i i2"
    by (cases "draw_loop b es hi i i2") simp_all
  ultimately show ?thesis by simp
qed

end
