(* ===== verification/Grid_Word.thy ===== *)
theory Grid_Word
  imports Grid_Logic
begin

text \<open>
  The navigation handlers at the machine's width. \<open>Store::GetBox\<close>,
  \<open>GetEntry\<close> and \<open>GetScreenIndx\<close> return 32-bit \<open>int\<close>s, so every \<open>+\<close>, \<open>-\<close>,
  \<open>/\<close>, \<open>%\<close> and \<open><\<close> of \<open>GridLogic\<close> (src/source/store/grid.cpp, lines
  104-170) is here an operation on \<open>u32\<close> read as signed: \<open><s\<close> for the signed
  comparisons, wrapping \<open>+\<close>/\<open>-\<close>, and C's truncating division \<open>c_div\<close>/\<open>c_mod\<close>
  (the quotient of the signed readings, written back into 32 bits).
  \<open>(int)entries.size() - 1\<close> and \<open>SetEntry(entries.size() - 1)\<close> both become
  the word \<open>sz - 1\<close>; \<open>entries.size() > 15\<close> stays the unsigned \<open><\<close>.
  Signed overflow is undefined in C; the model lets it wrap, as the ARM code
  the compiler emits for these additions does.

  \<open>abs32\<close> reads a word store as the \<open>int\<close> store of \<open>Grid_State\<close>. The
  lemmas show that under the invariant, and for catalogs of at most
  \<open>2^31 - 7\<close> entries, each word handler, the word frame and every
  reachable word state agree with the \<open>int\<close> model of \<open>Grid_Nav\<close> and
  \<open>Grid_Logic\<close>; and that beyond that size \<open>KEY_DOWN\<close>'s \<open>GetEntry() + 5\<close>
  does overflow.
\<close>
record store32 =
  box32 :: u32
  entry32 :: u32
  screen32 :: u32

definition c_div :: "u32 \<Rightarrow> u32 \<Rightarrow> u32" where
  "c_div a b = word_of_int (sint a sdiv sint b)"

definition c_mod :: "u32 \<Rightarrow> u32 \<Rightarrow> u32" where
  "c_mod a b = word_of_int (sint a smod sint b)"

definition key_down32 :: "size_t \<Rightarrow> store32 \<Rightarrow> store32" where
  "key_down32 sz s =
     (if 9 <s box32 s then
        (if entry32 s + 5 <s sz - 1 then
           (let s1 = s\<lparr>entry32 := entry32 s + 5\<rparr> in
            if 15 < sz then s1\<lparr>screen32 := c_div (entry32 s1) 5 - 2\<rparr> else s1)
         else if entry32 s <s sz - 1 then
           (let s1 = s\<lparr>entry32 := sz - 1\<rparr>;
                s2 = s1\<lparr>box32 := 10 + c_mod (entry32 s1) 5\<rparr> in
            if 15 < sz then s2\<lparr>screen32 := c_div (entry32 s2) 5 - 2\<rparr> else s2)
         else s)
      else if entry32 s + 5 <s sz then
        s\<lparr>box32 := box32 s + 5, entry32 := entry32 s + 5\<rparr>
      else s)"

definition key_right32 :: "size_t \<Rightarrow> store32 \<Rightarrow> store32" where
  "key_right32 sz s =
     (if entry32 s <s sz - 1 then
        (if box32 s <s 14 then s\<lparr>box32 := box32 s + 1, entry32 := entry32 s + 1\<rparr>
         else
           (let s1 = s\<lparr>box32 := 10, entry32 := entry32 s + 1\<rparr> in
            s1\<lparr>screen32 := c_div (entry32 s1) 5 - 2\<rparr>))
      else s)"

definition key_left32 :: "store32 \<Rightarrow> store32" where
  "key_left32 s =
     (if 0 <s entry32 s then
        (if 0 <s box32 s then s\<lparr>box32 := box32 s - 1, entry32 := entry32 s - 1\<rparr>
         else
           (let s1 = s\<lparr>box32 := 4, entry32 := entry32 s - 1\<rparr> in
            s1\<lparr>screen32 := c_div (entry32 s1) 5\<rparr>))
      else s)"

definition key_up32 :: "store32 \<Rightarrow> store32" where
  "key_up32 s =
     (if box32 s <s 5 then
        (if 4 <s entry32 s then
           (let s1 = s\<lparr>entry32 := entry32 s - 5\<rparr> in
            s1\<lparr>screen32 := c_div (entry32 s1) 5\<rparr>)
         else s)
      else s\<lparr>box32 := box32 s - 5, entry32 := entry32 s - 5\<rparr>)"

definition abs32 :: "store32 \<Rightarrow> store" where
  "abs32 s = \<lparr>box = sint (box32 s), entry = sint (entry32 s), screen_indx = sint (screen32 s)\<rparr>"

definition nav_frame32 :: "u32 \<Rightarrow> size_t \<Rightarrow> store32 \<Rightarrow> store32" where
  "nav_frame32 hRepeat sz s =
     (let s1 = (if held hRepeat KeyDown then key_down32 sz s else s);
          s2 = (if held hRepeat KeyRight then key_right32 sz s1 else s1);
          s3 = (if held hRepeat KeyLeft then key_left32 s2 else s2)
      in if held hRepeat KeyUp then key_up32 s3 else s3)"

definition init_store32 :: store32 where
  "init_store32 = \<lparr>box32 = 0, entry32 = 0, screen32 = 0\<rparr>"

inductive reachable32 :: "size_t \<Rightarrow> store32 \<Rightarrow> bool" where
  start32: "0 \<le> int_of_size sz \<Longrightarrow> reachable32 sz init_store32"
| frame32: "reachable32 sz s \<Longrightarrow> reachable32 sz (nav_frame32 h sz s)"

subsection \<open>Signed readings of 32-bit arithmetic\<close>

lemma sint_add_small:
  "- (2 ^ 31) \<le> sint a + sint b \<Longrightarrow> sint a + sint b < 2 ^ 31 \<Longrightarrow> sint (a + b :: u32) = sint a + sint b"
  by (simp add: sint_word_ariths signed_take_bit_int_eq_self)

lemma sint_diff_small:
  "- (2 ^ 31) \<le> sint a - sint b \<Longrightarrow> sint a - sint b < 2 ^ 31 \<Longrightarrow> sint (a - b :: u32) = sint a - sint b"
  by (simp add: sint_word_ariths signed_take_bit_int_eq_self)

lemma sint_word_of_int_small:
  "- (2 ^ 31) \<le> k \<Longrightarrow> k < 2 ^ 31 \<Longrightarrow> sint (word_of_int k :: u32) = k"
  by (simp add: signed_of_int signed_take_bit_int_eq_self)



lemma sint_sdiv_five_bounds:
  "- (2 ^ 31) \<le> (k::int) \<Longrightarrow> k < 2 ^ 31 \<Longrightarrow> - (2 ^ 31) \<le> k sdiv 5 - 2 \<and> k sdiv 5 < 2 ^ 31"
  by (cases "0 \<le> k") (auto simp: signed_divide_int_def sgn_if)

lemma sint_smod_five_bounds: "- 5 < (k::int) smod 5 \<and> k smod 5 < 5"
  by (cases "0 \<le> k") (auto simp: signed_modulo_int_def sgn_if)

lemma sint_c_div [grid_simps]: "sint (c_div a 5) = sint a sdiv 5"
  using sint_sdiv_five_bounds [of "sint a"] sint_ge [of a] sint_lt [of a]
  by (simp add: c_div_def sint_word_of_int_small)

lemma sint_c_div_minus_two [grid_simps]: "sint (c_div a 5 - 2) = sint a sdiv 5 - 2"
  using sint_sdiv_five_bounds [of "sint a"] sint_ge [of a] sint_lt [of a]
  by (simp add: sint_diff_small sint_c_div)

lemma sint_ten_plus_c_mod [grid_simps]: "sint (10 + c_mod a 5) = 10 + sint a smod 5"
  using sint_smod_five_bounds [of "sint a"]
  by (simp add: c_mod_def sint_add_small sint_word_of_int_small)

lemma sint_wrap_up:
  "2147483648 \<le> k \<Longrightarrow> k < 6442450944 \<Longrightarrow> sint (word_of_int k :: u32) = k - 4294967296"
proof -
  assume "2147483648 \<le> k" "k < 6442450944"
  then have "sint (word_of_int (k - 4294967296) :: u32) = k - 4294967296"
    by (intro sint_word_of_int_small) simp_all
  moreover have eq: "(word_of_int k :: u32) = word_of_int (k - 4294967296)" by simp
  ultimately show ?thesis by (simp only: eq)
qed

lemma sint_numeral_small:
  "numeral k < (2147483648::int) \<Longrightarrow> sint (numeral k :: u32) = numeral k"
  using sint_word_of_int_small [of "numeral k"] by simp

lemma sint_plus_num:
  "- 2147483648 \<le> sint a + numeral k \<Longrightarrow> sint a + numeral k < 2147483648 \<Longrightarrow>
   numeral k < (2147483648::int) \<Longrightarrow> sint (a + numeral k :: u32) = sint a + numeral k"
  using sint_add_small [of a "numeral k"] sint_numeral_small [of k] by simp

lemma sint_minus_num:
  "- 2147483648 \<le> sint a - numeral k \<Longrightarrow> sint a - numeral k < 2147483648 \<Longrightarrow>
   numeral k < (2147483648::int) \<Longrightarrow> sint (a - numeral k :: u32) = sint a - numeral k"
  using sint_diff_small [of a "numeral k"] sint_numeral_small [of k] by simp

lemma sint_plus_one:
  "sint a + 1 < 2147483648 \<Longrightarrow> sint (a + 1 :: u32) = sint a + 1"
  using sint_add_small [of a 1] sint_ge [of a] by simp

lemma sint_minus_one:
  "- 2147483648 \<le> sint a - 1 \<Longrightarrow> sint (a - 1 :: u32) = sint a - 1"
  using sint_diff_small [of a 1] sint_lt [of a] by simp

lemma sint_size_minus_one:
  "0 \<le> sint (sz::u32) \<Longrightarrow> sint (sz - 1) = sint sz - 1"
  using sint_lt [of sz] by (simp add: sint_diff_small)

subsection \<open>The word handlers implement the integer handlers\<close>

lemma abs32_inv_bounds:
  assumes "grid_inv sz (abs32 s)"
  shows "0 \<le> sint (box32 s)" "sint (box32 s) \<le> 14" "0 \<le> sint (screen32 s)"
    "0 \<le> sint (entry32 s)" "sint (entry32 s) \<le> 2147483646" "0 \<le> int_of_size sz"
proof -
  have "sint sz < 2147483648" using sint_lt [of sz] by simp
  then show "sint (entry32 s) \<le> 2147483646"
    using assms by (auto simp: grid_inv_def abs32_def int_of_size_def)
qed (use assms grid_inv_size_nonneg [OF assms] in \<open>auto simp: grid_inv_def abs32_def\<close>)

lemma abs32_steps:
  assumes "grid_inv sz (abs32 s)"
  shows "sint (entry32 s + 1) = sint (entry32 s) + 1 \<and> sint (entry32 s - 1) = sint (entry32 s) - 1 \<and>
    sint (entry32 s - 5) = sint (entry32 s) - 5 \<and>
    sint (box32 s + 1) = sint (box32 s) + 1 \<and> sint (box32 s - 1) = sint (box32 s) - 1 \<and>
    sint (box32 s + 5) = sint (box32 s) + 5 \<and> sint (box32 s - 5) = sint (box32 s) - 5"
  using abs32_inv_bounds [OF assms]
  by (intro conjI sint_plus_num sint_minus_num sint_plus_one sint_minus_one; linarith)

lemma key_down32_equiv:
  assumes inv: "grid_inv sz (abs32 s)" and small: "int_of_size sz \<le> 2147483641"
  shows "abs32 (key_down32 sz s) = key_down sz (abs32 s)"
proof -
  have "sint (entry32 s + 5) = sint (entry32 s) + 5"
    using abs32_inv_bounds [OF inv] small grid_inv_def inv abs32_def
    by (intro sint_plus_num) (auto simp: grid_inv_def abs32_def)
  then show ?thesis
    using abs32_steps [OF inv] abs32_inv_bounds(6) [OF inv]
    by (simp add: key_down32_def key_down_def abs32_def Let_def word_sless_alt
        sint_size_minus_one int_of_size_def grid_simps)
qed

lemma key_right32_equiv:
  assumes inv: "grid_inv sz (abs32 s)"
  shows "abs32 (key_right32 sz s) = key_right sz (abs32 s)"
  using abs32_steps [OF inv] abs32_inv_bounds(6) [OF inv]
  by (simp add: key_right32_def key_right_def abs32_def Let_def word_sless_alt
      sint_size_minus_one int_of_size_def grid_simps)

lemma key_left32_equiv:
  assumes inv: "grid_inv sz (abs32 s)"
  shows "abs32 (key_left32 s) = key_left (abs32 s)"
  using abs32_steps [OF inv]
  by (simp add: key_left32_def key_left_def abs32_def Let_def word_sless_alt grid_simps)

lemma key_up32_equiv:
  assumes inv: "grid_inv sz (abs32 s)"
  shows "abs32 (key_up32 s) = key_up (abs32 s)"
  using abs32_steps [OF inv]
  by (simp add: key_up32_def key_up_def abs32_def Let_def word_sless_alt grid_simps)

lemma nav_frame32_equiv_inv:
  assumes inv: "grid_inv sz (abs32 s)" and small: "int_of_size sz \<le> 2147483641"
  shows "abs32 (nav_frame32 h sz s) = nav_frame h sz (abs32 s)"
proof -
  define d where "d = (if held h KeyDown then key_down32 sz s else s)"
  define r where "r = (if held h KeyRight then key_right32 sz d else d)"
  define l where "l = (if held h KeyLeft then key_left32 r else r)"
  have d: "abs32 d = (if held h KeyDown then key_down sz (abs32 s) else abs32 s)"
    using key_down32_equiv [OF inv small] by (simp add: d_def)
  have id: "grid_inv sz (abs32 d)" using inv by (simp add: d key_down_inv)
  have r: "abs32 r = (if held h KeyRight then key_right sz (abs32 d) else abs32 d)"
    using key_right32_equiv [OF id] by (simp add: r_def)
  have ir: "grid_inv sz (abs32 r)" using id by (simp add: r key_right_inv)
  have l: "abs32 l = (if held h KeyLeft then key_left (abs32 r) else abs32 r)"
    using key_left32_equiv [OF ir] by (simp add: l_def)
  have il: "grid_inv sz (abs32 l)" using ir by (simp add: l key_left_inv)
  have u: "abs32 (if held h KeyUp then key_up32 l else l) =
        (if held h KeyUp then key_up (abs32 l) else abs32 l)"
    using key_up32_equiv [OF il] by simp
  have "nav_frame32 h sz s = (if held h KeyUp then key_up32 l else l)"
    by (simp add: nav_frame32_def Let_def d_def r_def l_def)
  moreover have "nav_frame h sz (abs32 s) = (if held h KeyUp then key_up (abs32 l) else abs32 l)"
    by (simp add: nav_frame_def Let_def d r l)
  ultimately show ?thesis using u by simp
qed

lemma abs32_init: "abs32 init_store32 = init_store"
  by (simp add: abs32_def init_store32_def init_store_def)

lemma reachable32_sim:
  "reachable32 sz s \<Longrightarrow> int_of_size sz \<le> 2147483641 \<Longrightarrow> reachable sz (abs32 s)"
proof (induction rule: reachable32.induct)
  case (start32 sz)
  then show ?case by (simp add: abs32_init reachable.start)
next
  case (frame32 sz s h)
  then have "reachable sz (abs32 s)" by simp
  moreover from this have "grid_inv sz (abs32 s)" by (simp add: reachable_inv_small)
  ultimately show ?case
    using frame32.prems by (simp add: nav_frame32_equiv_inv reachable.frame)
qed

subsection \<open>Claims\<close>

text \<open>
  C27. At the machine's 32-bit width, one frame of \<open>GridLogic\<close> computes the
  same store as the integer model, for every set of held keys, in every state
  satisfying the invariant of a catalog of at most \<open>2^31 - 7\<close> entries: no
  addition, subtraction or division of the handlers overflows there, and the
  signed comparisons against \<open>(int)entries.size() - 1\<close> mean what they say.
\<close>

theorem nav_frame32_equiv:
  assumes "grid_inv sz (abs32 s)" and "int_of_size sz \<le> 2147483641"
  shows "abs32 (nav_frame32 h sz s) = nav_frame h sz (abs32 s)"
  using assms by (rule nav_frame32_equiv_inv)

theorem nav_frame32_equiv_witness:
  "grid_inv 20 (abs32 \<lparr>box32 = 10, entry32 = 15, screen32 = 1\<rparr>) \<and> int_of_size 20 \<le> 2147483641 \<and>
   abs32 (nav_frame32 (key_mask KeyDown OR key_mask KeyRight) 20 \<lparr>box32 = 10, entry32 = 15, screen32 = 1\<rparr>) =
   nav_frame (key_mask KeyDown OR key_mask KeyRight) 20 (abs32 \<lparr>box32 = 10, entry32 = 15, screen32 = 1\<rparr>)"
proof -
  have "grid_inv 20 (abs32 \<lparr>box32 = 10, entry32 = 15, screen32 = 1\<rparr>)"
    by (simp add: grid_inv_def abs32_def int_of_size_def)
  moreover have "int_of_size 20 \<le> 2147483641" by (simp add: int_of_size_def)
  ultimately show ?thesis using nav_frame32_equiv by blast
qed

text \<open>
  C28. The word model refines the integer model: every store the 32-bit
  \<open>GridLogic\<close> reaches from the start state, frame by frame, for a catalog of
  at most \<open>2^31 - 7\<close> entries, reads as a store the integer model reaches, and
  so satisfies the view-state invariant.
\<close>

theorem reachable32_refines:
  assumes "reachable32 sz s" and "int_of_size sz \<le> 2147483641"
  shows "reachable sz (abs32 s) \<and> grid_inv sz (abs32 s)"
  using reachable32_sim [OF assms] reachable_inv_small by blast

theorem reachable32_refines_witness:
  "reachable32 20 (nav_frame32 (key_mask KeyRight) 20 init_store32) \<and> int_of_size 20 \<le> 2147483641 \<and>
   reachable 20 (abs32 (nav_frame32 (key_mask KeyRight) 20 init_store32)) \<and>
   grid_inv 20 (abs32 (nav_frame32 (key_mask KeyRight) 20 init_store32))"
proof -
  have r: "reachable32 20 (nav_frame32 (key_mask KeyRight) 20 init_store32)"
    by (intro reachable32.frame32 reachable32.start32) (simp add: int_of_size_def)
  have "int_of_size 20 \<le> 2147483641" by (simp add: int_of_size_def)
  with r show ?thesis using reachable32_refines by blast
qed

text \<open>
  C29. The size bound of C27 and C28 is needed, and this is what happens past
  it: in every valid state outside the bottom row whose selection is within 4
  of \<open>INT_MAX\<close> (possible once the catalog has more than \<open>2^31 - 5\<close>
  entries), \<open>KEY_DOWN\<close> evaluates \<open>GetEntry() + 5\<close> past \<open>INT_MAX\<close>. The
  integer model does nothing there, since no entry lies a row below; at 32 bits
  the wrapped sum is negative, passes the guard \<open>< (int)entries.size()\<close>, and
  the handler selects a negative entry.
\<close>

theorem key_down32_overflow:
  assumes "grid_inv sz (abs32 s)" and "sint (box32 s) \<le> 9" and "2147483643 \<le> sint (entry32 s)"
  shows "key_down sz (abs32 s) = abs32 s \<and> sint (entry32 (key_down32 sz s)) < 0"
proof -
  have n: "0 \<le> sint sz" "sint sz < 2147483648"
    using grid_inv_size_nonneg [OF assms(1)] sint_lt [of sz] by (simp_all add: int_of_size_def)
  have lt: "sint (entry32 s) < 2147483648" using sint_lt [of "entry32 s"] by simp
  moreover have "entry32 s + 5 = word_of_int (sint (entry32 s) + 5)" by simp
  ultimately have e5: "sint (entry32 s + 5) = sint (entry32 s) + 5 - 4294967296"
    using assms(3) sint_wrap_up [of "sint (entry32 s) + 5"] by simp
  have "key_down32 sz s = s\<lparr>box32 := box32 s + 5, entry32 := entry32 s + 5\<rparr>"
    using assms(2) n e5 lt by (simp add: key_down32_def word_sless_alt)
  then have "sint (entry32 (key_down32 sz s)) < 0" using e5 lt by simp
  moreover have "key_down sz (abs32 s) = abs32 s"
    using assms(2,3) n by (simp add: key_down_def abs32_def int_of_size_def)
  ultimately show ?thesis by simp
qed

theorem key_down32_overflow_witness:
  "grid_inv 0x7FFFFFFF (abs32 \<lparr>box32 = 9, entry32 = 2147483644, screen32 = 429496727\<rparr>) \<and>
   sint (box32 \<lparr>box32 = 9, entry32 = 2147483644, screen32 = 429496727\<rparr>) \<le> 9 \<and>
   2147483643 \<le> sint (entry32 \<lparr>box32 = 9, entry32 = 2147483644, screen32 = 429496727\<rparr>) \<and>
   key_down 0x7FFFFFFF (abs32 \<lparr>box32 = 9, entry32 = 2147483644, screen32 = 429496727\<rparr>) =
     abs32 \<lparr>box32 = 9, entry32 = 2147483644, screen32 = 429496727\<rparr> \<and>
   sint (entry32 (key_down32 0x7FFFFFFF \<lparr>box32 = 9, entry32 = 2147483644, screen32 = 429496727\<rparr>)) < 0"
proof -
  have "grid_inv 0x7FFFFFFF (abs32 \<lparr>box32 = 9, entry32 = 2147483644, screen32 = 429496727\<rparr>)"
    by (simp add: grid_inv_def abs32_def int_of_size_def)
  with key_down32_overflow [of "0x7FFFFFFF" "\<lparr>box32 = 9, entry32 = 2147483644, screen32 = 429496727\<rparr>"]
  show ?thesis by simp
qed

end
