(* ===== verification/Grid_Draw32.thy ===== *)
theory Grid_Draw32
  imports Grid_Draw Grid_Word
begin

text \<open>
  \<open>DrawGrid\<close> at the machine's width. The loop of line 66 starts at
  \<open>i2 = 0 + (store->GetScreenIndx() * 5)\<close> and runs while
  \<open>i2 < 15 + (store->GetScreenIndx() * 5)\<close>: both bounds are 32-bit
  \<open>int\<close> expressions of the stored \<open>ScreenIndx\<close>, so \<open>draw_grid32\<close> reads
  them from the word store \<open>store32\<close> of \<open>Grid_Word\<close> with wrapping
  multiplication and addition (signed overflow, undefined in C, wraps as
  elsewhere in the development). The loop itself is \<open>draw_loop\<close> of
  \<open>Grid_Draw\<close> on \<open>int\<close>: there \<open>i2++\<close> cannot overflow, because
  \<open>i2 < hi \<le> INT_MAX\<close> before each increment, and \<open>i\<close> stays below 16,
  because the loop runs at most \<open>hi - i2\<close> times and \<open>hi - i2 \<le> 15\<close> unless
  \<open>hi\<close> wrapped below \<open>i2\<close>, in which case it does not run at all.

  The theory shows that \<open>draw_grid32\<close> is the integer renderer
  \<open>draw_grid\<close> of the store's signed reading \<open>abs32\<close> exactly when no bound
  wraps, \<open>-429496729 \<le> ScreenIndx \<le> 429496726\<close>, and states the renderer's
  claims for that range; for \<open>429496727 \<le> ScreenIndx \<le> 429496729\<close> the
  upper bound wraps negative and the frame shows no cell at all.
\<close>

definition draw_grid32 :: "bool \<Rightarrow> bool \<Rightarrow> store32 option \<Rightarrow> store_entry option list \<Rightarrow> draw_cmd list option" where
  "draw_grid32 usebg customBG st es =
     (case st of
        None \<Rightarrow> Some []
      | Some s \<Rightarrow>
          map_option ((#) (if usebg \<and> customBG then DrawStoreImg 0 26 else DrawRect 0 26 400 214))
            (draw_loop (sint (box32 s)) es (sint (15 + screen32 s * 5)) 0 (sint (screen32 s * 5))))"

subsection \<open>The loop bounds at 32 bits\<close>

lemma sint_times_five:
  "- 429496729 \<le> sint a \<Longrightarrow> sint a \<le> 429496729 \<Longrightarrow> sint (a * 5 :: u32) = sint a * 5"
proof -
  assume "- 429496729 \<le> sint a" "sint a \<le> 429496729"
  then have "sint (word_of_int (sint a * 5) :: u32) = sint a * 5"
    by (intro sint_word_of_int_small) simp_all
  moreover have "(word_of_int (sint a * 5) :: u32) = a * 5" by simp
  ultimately show ?thesis by simp
qed

lemma sint_fifteen_plus:
  "- 429496729 \<le> sint a \<Longrightarrow> sint a \<le> 429496726 \<Longrightarrow> sint (15 + a * 5 :: u32) = 15 + sint a * 5"
proof -
  assume "- 429496729 \<le> sint a" "sint a \<le> 429496726"
  then have "sint (word_of_int (15 + sint a * 5) :: u32) = 15 + sint a * 5"
    by (intro sint_word_of_int_small) simp_all
  moreover have "(word_of_int (15 + sint a * 5) :: u32) = 15 + a * 5" by simp
  ultimately show ?thesis by simp
qed

lemma sint_fifteen_plus_wraps:
  "429496727 \<le> sint a \<Longrightarrow> sint a \<le> 429496729 \<Longrightarrow>
   sint (15 + a * 5 :: u32) = 15 + sint a * 5 - 4294967296"
proof -
  assume "429496727 \<le> sint a" "sint a \<le> 429496729"
  then have "sint (word_of_int (15 + sint a * 5) :: u32) = 15 + sint a * 5 - 4294967296"
    by (intro sint_wrap_up) simp_all
  moreover have "(word_of_int (15 + sint a * 5) :: u32) = 15 + a * 5" by simp
  ultimately show ?thesis by simp
qed

lemma draw_grid32_abs:
  assumes "- 429496729 \<le> sint (screen32 s)" and "sint (screen32 s) \<le> 429496726"
  shows "draw_grid32 u c (Some s) es = draw_grid u c (Some (abs32 s)) es"
  using assms by (simp add: draw_grid32_def draw_grid_def abs32_def sint_times_five sint_fifteen_plus)

lemma page_offset_abs32: "page_offset (abs32 s) = 5 * sint (screen32 s)"
  by (simp add: page_offset_def abs32_def)

subsection \<open>Claims on the renderer\<close>

text \<open>
  C19. \<open>DrawGrid\<close> never reads out of range while the first visible row is
  not negative and its bounds \<open>5 * ScreenIndx\<close> and \<open>15 + 5 * ScreenIndx\<close>
  fit in an \<open>int\<close>: every \<open>entries[i2]\<close> and every \<open>GridBoxes[i]\<close> it reads
  is in bounds, whatever the entries, the selection cell and the catalog size.
\<close>

theorem draw_grid32_defined:
  assumes "0 \<le> sint (screen32 s)" and "sint (screen32 s) \<le> 429496726"
  shows "draw_grid32 u c (Some s) es \<noteq> None"
proof -
  have "0 \<le> screen_indx (abs32 s)" using assms(1) by (simp add: abs32_def)
  then have "draw_grid u c (Some (abs32 s)) es \<noteq> None" by (rule draw_grid_some)
  with assms show ?thesis by (simp add: draw_grid32_abs)
qed

theorem draw_grid32_defined_witness:
  "0 \<le> sint (screen32 \<lparr>box32 = 3, entry32 = 8, screen32 = 1\<rparr>) \<and> sint (screen32 \<lparr>box32 = 3, entry32 = 8, screen32 = 1\<rparr>) \<le> 429496726 \<and>
   draw_grid32 True False (Some \<lparr>box32 = 3, entry32 = 8, screen32 = 1\<rparr>) (replicate 9 (Some \<lparr>icon_w = 48, icon_h = 40, update_avl = True\<rparr>)) \<noteq> None"
  using draw_grid32_defined [of "\<lparr>box32 = 3, entry32 = 8, screen32 = 1\<rparr>" True False "replicate 9 (Some \<lparr>icon_w = 48, icon_h = 40, update_avl = True\<rparr>)"] by simp

text \<open>
  C20. The rendering contract of spec section 4.3: the icons drawn are exactly
  those of the non-null entries from \<open>pageOffset = 5 * ScreenIndx\<close> up to
  fifteen entries later or the end of the catalog, in order; slots past the
  end are left empty. This holds for every first visible row whose bounds fit
  in an \<open>int\<close>.
\<close>

theorem draw_grid32_icons:
  assumes "0 \<le> sint (screen32 s)" and "sint (screen32 s) \<le> 429496726" and "length es < 2 ^ 31"
  shows "map_option (List.map_filter icon_of) (draw_grid32 u c (Some s) es) =
           Some (filter (\<lambda>k. es ! k \<noteq> None)
             [nat (5 * sint (screen32 s)) ..< min (nat (5 * sint (screen32 s)) + 15) (length es)])"
proof -
  have "0 \<le> screen_indx (abs32 s)" using assms(1) by (simp add: abs32_def)
  from draw_grid_icons_eq [OF this assms(3), of u c] assms(1,2) show ?thesis
    by (simp add: draw_grid32_abs page_offset_abs32)
qed

theorem draw_grid32_icons_witness:
  "0 \<le> sint (screen32 \<lparr>box32 = 3, entry32 = 8, screen32 = 1\<rparr>) \<and> sint (screen32 \<lparr>box32 = 3, entry32 = 8, screen32 = 1\<rparr>) \<le> 429496726 \<and> length [Some \<lparr>icon_w = 48, icon_h = 40, update_avl = True\<rparr>, None, Some \<lparr>icon_w = 48, icon_h = 40, update_avl = True\<rparr>, Some \<lparr>icon_w = 48, icon_h = 40, update_avl = True\<rparr>, Some \<lparr>icon_w = 48, icon_h = 40, update_avl = True\<rparr>, Some \<lparr>icon_w = 48, icon_h = 40, update_avl = True\<rparr>, None, Some \<lparr>icon_w = 48, icon_h = 40, update_avl = True\<rparr>] < 2 ^ 31 \<and>
   map_option (List.map_filter icon_of) (draw_grid32 False False (Some \<lparr>box32 = 3, entry32 = 8, screen32 = 1\<rparr>) [Some \<lparr>icon_w = 48, icon_h = 40, update_avl = True\<rparr>, None, Some \<lparr>icon_w = 48, icon_h = 40, update_avl = True\<rparr>, Some \<lparr>icon_w = 48, icon_h = 40, update_avl = True\<rparr>, Some \<lparr>icon_w = 48, icon_h = 40, update_avl = True\<rparr>, Some \<lparr>icon_w = 48, icon_h = 40, update_avl = True\<rparr>, None, Some \<lparr>icon_w = 48, icon_h = 40, update_avl = True\<rparr>]) = Some [5, 7]"
  using draw_grid32_icons [of "\<lparr>box32 = 3, entry32 = 8, screen32 = 1\<rparr>" "[Some \<lparr>icon_w = 48, icon_h = 40, update_avl = True\<rparr>, None, Some \<lparr>icon_w = 48, icon_h = 40, update_avl = True\<rparr>, Some \<lparr>icon_w = 48, icon_h = 40, update_avl = True\<rparr>, Some \<lparr>icon_w = 48, icon_h = 40, update_avl = True\<rparr>, Some \<lparr>icon_w = 48, icon_h = 40, update_avl = True\<rparr>, None, Some \<lparr>icon_w = 48, icon_h = 40, update_avl = True\<rparr>]" False False] by (simp add: upt_rec)

text \<open>
  C21. In a valid state of a non-empty catalog whose first visible row keeps
  the loop bounds within an \<open>int\<close>, the frame draws exactly one highlight box,
  at the cell \<open>GridBoxes[Box]\<close> of the selection.
\<close>

theorem draw_grid32_highlight:
  assumes "grid_inv (size_of_list es) (abs32 s)" and "es \<noteq> []" and "length es < 2 ^ 31"
    and "sint (screen32 s) \<le> 429496726"
  shows "map_option (filter is_highlight) (draw_grid32 u c (Some s) es) =
           Some [DrawBox (pos_x (GridBoxes ! nat (sint (box32 s)))) (pos_y (GridBoxes ! nat (sint (box32 s)))) 50 50 True]"
proof -
  have "0 \<le> sint (screen32 s)" using grid_inv_row_nonneg [OF assms(1)] by (simp add: abs32_def)
  with draw_grid_highlight_eq [OF assms(1-3), of u c] assms(4) show ?thesis
    by (simp add: draw_grid32_abs abs32_def)
qed

theorem draw_grid32_highlight_witness:
  "grid_inv (size_of_list (replicate 9 (Some \<lparr>icon_w = 48, icon_h = 40, update_avl = True\<rparr>))) (abs32 \<lparr>box32 = 3, entry32 = 8, screen32 = 1\<rparr>) \<and>
   replicate 9 (Some \<lparr>icon_w = 48, icon_h = 40, update_avl = True\<rparr>) \<noteq> [] \<and> length (replicate 9 (Some \<lparr>icon_w = 48, icon_h = 40, update_avl = True\<rparr>)) < 2 ^ 31 \<and> sint (screen32 \<lparr>box32 = 3, entry32 = 8, screen32 = 1\<rparr>) \<le> 429496726 \<and>
   map_option (filter is_highlight) (draw_grid32 True True (Some \<lparr>box32 = 3, entry32 = 8, screen32 = 1\<rparr>) (replicate 9 (Some \<lparr>icon_w = 48, icon_h = 40, update_avl = True\<rparr>))) = Some [DrawBox 250 45 50 50 True]"
proof -
  have "grid_inv (size_of_list (replicate 9 (Some \<lparr>icon_w = 48, icon_h = 40, update_avl = True\<rparr>))) (abs32 \<lparr>box32 = 3, entry32 = 8, screen32 = 1\<rparr>)"
    by (simp add: grid_inv_def abs32_def size_of_list_def int_of_size_def)
  with draw_grid32_highlight [of "replicate 9 (Some \<lparr>icon_w = 48, icon_h = 40, update_avl = True\<rparr>)" "\<lparr>box32 = 3, entry32 = 8, screen32 = 1\<rparr>" True True] show ?thesis
    by (simp add: GridBoxes_def)
qed

text \<open>
  C22. The bound check of line 72 guards only the upper end: in every frame
  whose first visible row is negative (and whose bounds fit in an \<open>int\<close>),
  \<open>DrawGrid\<close> reads \<open>entries[5 * ScreenIndx]\<close> before any other entry, out of
  range below. The safety of C19 thus rests on the navigation invariant
  \<open>ScreenIndx \<ge> 0\<close> (C1, C2).
\<close>

theorem draw_grid32_negative_row:
  assumes "- 429496729 \<le> sint (screen32 s)" and "sint (screen32 s) < 0" and "length es < 2 ^ 31"
  shows "draw_grid32 u c (Some s) es = None"
proof -
  have "screen_indx (abs32 s) < 0" using assms(2) by (simp add: abs32_def)
  from draw_grid_negative_none [OF this assms(3), of u c] assms(1,2) show ?thesis
    by (simp add: draw_grid32_abs)
qed

theorem draw_grid32_negative_row_witness:
  "- 429496729 \<le> sint (screen32 \<lparr>box32 = 0, entry32 = 0, screen32 = -1\<rparr>) \<and>
   sint (screen32 \<lparr>box32 = 0, entry32 = 0, screen32 = -1\<rparr>) < 0 \<and> length ([] :: store_entry option list) < 2 ^ 31 \<and>
   draw_grid32 False False (Some \<lparr>box32 = 0, entry32 = 0, screen32 = -1\<rparr>) [] = None"
  using draw_grid32_negative_row [of "\<lparr>box32 = 0, entry32 = 0, screen32 = -1\<rparr>" "[]" False False] by simp

text \<open>
  C31. Past that range the upper bound wraps: for a first visible row of
  429496727 to 429496729 (reached by a catalog of more than \<open>2^31 - 3\<close>
  entries), \<open>5 * ScreenIndx\<close> still fits in an \<open>int\<close> but
  \<open>15 + 5 * ScreenIndx\<close> overflows to a negative value, the loop condition
  fails at once, and the frame draws the background only: no highlight box and
  no icon, though the selection lies on that window.
\<close>

theorem draw_grid32_window_overflow:
  assumes "429496727 \<le> sint (screen32 s)" and "sint (screen32 s) \<le> 429496729"
  shows "draw_grid32 u c (Some s) es = Some [if u \<and> c then DrawStoreImg 0 26 else DrawRect 0 26 400 214]"
proof -
  have "sint (screen32 s * 5) = sint (screen32 s) * 5" using assms by (simp add: sint_times_five)
  moreover have "sint (15 + screen32 s * 5) = 15 + sint (screen32 s) * 5 - 4294967296"
    using assms by (rule sint_fifteen_plus_wraps)
  ultimately have "\<not> sint (screen32 s * 5) < sint (15 + screen32 s * 5)" using assms by simp
  then have "draw_loop (sint (box32 s)) es (sint (15 + screen32 s * 5)) 0 (sint (screen32 s * 5)) = Some []"
    by (subst draw_loop.simps) simp
  then show ?thesis by (simp add: draw_grid32_def)
qed

theorem draw_grid32_window_overflow_witness:
  "429496727 \<le> sint (screen32 \<lparr>box32 = 0, entry32 = 2147483635, screen32 = 429496727\<rparr>) \<and>
   sint (screen32 \<lparr>box32 = 0, entry32 = 2147483635, screen32 = 429496727\<rparr>) \<le> 429496729 \<and>
   draw_grid32 False False (Some \<lparr>box32 = 0, entry32 = 2147483635, screen32 = 429496727\<rparr>) (replicate 3 None) =
     Some [DrawRect 0 26 400 214]"
  using draw_grid32_window_overflow [of "\<lparr>box32 = 0, entry32 = 2147483635, screen32 = 429496727\<rparr>" False False "replicate 3 None"]
  by simp



text \<open>
  C33. The update marks of a frame: one mark for each visible, non-null entry
  whose update flag is set, in catalog order, drawn 32 pixels into that
  entry's box; none for the other entries (for every first visible row whose
  bounds fit in an \<open>int\<close>).
\<close>

theorem draw_grid32_update_marks:
  assumes "0 \<le> sint (screen32 s)" and "sint (screen32 s) \<le> 429496726" and "length es < 2 ^ 31"
  shows "map_option (List.map_filter mark_of) (draw_grid32 u c (Some s) es) =
           Some (map (\<lambda>k. (pos_x (GridBoxes ! (k - nat (5 * sint (screen32 s)))) + 32,
                            pos_y (GridBoxes ! (k - nat (5 * sint (screen32 s)))) + 32))
             (filter (\<lambda>k. case es ! k of Some ent \<Rightarrow> update_avl ent | None \<Rightarrow> False)
               [nat (5 * sint (screen32 s)) ..< min (nat (5 * sint (screen32 s)) + 15) (length es)]))"
proof -
  have "0 \<le> screen_indx (abs32 s)" using assms(1) by (simp add: abs32_def)
  from draw_grid_marks_eq [OF this assms(3), of u c] assms(1,2) show ?thesis
    by (simp add: draw_grid32_abs page_offset_abs32)
qed

theorem draw_grid32_update_marks_witness:
  "0 \<le> sint (screen32 \<lparr>box32 = 0, entry32 = 5, screen32 = 1\<rparr>) \<and> sint (screen32 \<lparr>box32 = 0, entry32 = 5, screen32 = 1\<rparr>) \<le> 429496726 \<and> length [None, None, None, None, None, Some \<lparr>icon_w = 48, icon_h = 48, update_avl = False\<rparr>, None, Some \<lparr>icon_w = 48, icon_h = 48, update_avl = True\<rparr>] < 2 ^ 31 \<and>
   map_option (List.map_filter mark_of) (draw_grid32 False False (Some \<lparr>box32 = 0, entry32 = 5, screen32 = 1\<rparr>) [None, None, None, None, None, Some \<lparr>icon_w = 48, icon_h = 48, update_avl = False\<rparr>, None, Some \<lparr>icon_w = 48, icon_h = 48, update_avl = True\<rparr>]) = Some [(207, 77)]"
  using draw_grid32_update_marks [of "\<lparr>box32 = 0, entry32 = 5, screen32 = 1\<rparr>" "[None, None, None, None, None, Some \<lparr>icon_w = 48, icon_h = 48, update_avl = False\<rparr>, None, Some \<lparr>icon_w = 48, icon_h = 48, update_avl = True\<rparr>]" False False] by (simp add: upt_rec GridBoxes_def)

text \<open>
  C39. The empty cases of spec section 7: with a null store \<open>DrawGrid\<close>
  draws nothing, and on an empty catalog it draws only the background (no
  highlight box, although the cursor cell is set), for every first visible
  row that is not negative and whose bounds fit in an \<open>int\<close>.
\<close>

theorem draw_grid32_empty:
  "draw_grid32 u c None es = Some [] \<and>
   (0 \<le> sint (screen32 s) \<and> sint (screen32 s) \<le> 429496726 \<longrightarrow>
      draw_grid32 u c (Some s) [] = Some [if u \<and> c then DrawStoreImg 0 26 else DrawRect 0 26 400 214])"
proof -
  have "0 \<le> sint (screen32 s) \<Longrightarrow> sint (screen32 s) \<le> 429496726 \<Longrightarrow>
        draw_grid32 u c (Some s) [] = Some [if u \<and> c then DrawStoreImg 0 26 else DrawRect 0 26 400 214]"
    using draw_grid_empty_eq [of "abs32 s" u c] by (simp add: draw_grid32_abs abs32_def)
  then show ?thesis by (simp add: draw_grid32_def)
qed

theorem draw_grid32_empty_witness:
  "draw_grid32 True True None [] = Some [] \<and> 0 \<le> sint (screen32 init_store32) \<and>
   sint (screen32 init_store32) \<le> 429496726 \<and>
   draw_grid32 False False (Some init_store32) [] = Some [DrawRect 0 26 400 214]"
  using draw_grid32_empty [of True True "[]" init_store32] draw_grid32_empty [of False False "[]" init_store32]
  by (simp add: init_store32_def)

end
