(* ===== verification/Spec2Isabelle.thy ===== *)
theory Spec2Isabelle
  imports Grid_Logic Grid_Draw_Loop Grid_Draw32
begin

text \<open>
  \<^bold>\<open>The catalog grid of Universal-Updater, verified.\<close>

  \<^emph>\<open>The program.\<close> The grid view of the store browser lives in
  src/source/store/grid.cpp. \<open>StoreUtils::GridLogic\<close> is called once per frame
  with the store (a possibly null \<open>std::unique_ptr<Store>\<close>), the vector of
  catalog entries and four of the caller's mode variables; it reads the global
  HID words \<open>hRepeat\<close> and \<open>hDown\<close>, moves the selection with the D-pad and
  circle pad, and on \<open>KEY_A\<close> asks the caller to switch to the fetch mode.
  The selection lives in three integer fields of the \<open>Store\<close>: the highlighted
  cell \<open>Box\<close> of the 3\<open>\<times>\<close>5 grid, the selected entry \<open>Entry\<close> and the first
  visible row \<open>ScreenIndx\<close>. \<open>StoreUtils::DrawGrid\<close> reads the same fields each
  frame and draws fifteen entries from row \<open>ScreenIndx\<close> into the cells listed
  in \<open>GridBoxes\<close>. src/include/overlays/overlay.hpp declares the overlay menus
  (store, language, credits, directory picker), whose code is not in the
  repository's sources.

  \<^emph>\<open>The theories.\<close>
  \<^item> \<open>Grid_Prelude\<close>: the machine types (\<open>size_t\<close> and the key words as
    \<open>32 word\<close>, C \<open>int\<close> as \<open>int\<close>), the casts \<open>(int)entries.size()\<close>
    (\<open>int_of_size\<close>, the signed reading of the 32-bit size) and
    \<open>entries.size() - 1\<close> (wrapping \<open>size_t\<close> subtraction), C's truncating
    \<open>/\<close> and \<open>%\<close> (\<open>sdiv\<close>, \<open>smod\<close>), and the row/column arithmetic the
    proofs share (collection \<open>grid_simps\<close>).
  \<^item> \<open>Grid_State\<close>: the record \<open>store\<close> (fields \<open>box\<close>, \<open>entry\<close>,
    \<open>screen_indx\<close>), the session's start state and the invariant \<open>grid_inv\<close>.
  \<^item> \<open>Grid_Spec\<close>: the contract of spec.md section 4.2 on the selected index
    alone (\<open>sel_down\<close>, \<open>sel_up\<close>, \<open>sel_right\<close>, \<open>sel_left\<close>) and the window
    discipline \<open>scroll_ok\<close>.
  \<^item> \<open>Grid_Nav\<close>: the four directional branches of \<open>GridLogic\<close>
    (lines 104-170) as \<open>key_down\<close>, \<open>key_right\<close>, \<open>key_left\<close>, \<open>key_up\<close>,
    with their guards and setter order; each keeps \<open>grid_inv\<close>, refines its
    selection contract, moves the selection in its own direction whenever it
    changes the store, and scrolls by at most one row and only when needed;
    Left/Right and Up/Down undo each other inside the window, not across its
    edges; a forward rescroll leaves the selection in the window's bottom row
    and a backward one in its top row (the spec's open question on the
    two-row bias).
  \<^item> \<open>Grid_Input\<close>: libctru's key masks (\<open>key_mask\<close>) and the test
    \<open>hRepeat & KEY_x\<close> (\<open>held\<close>).
  \<^item> \<open>Grid_Logic\<close>: one call of \<open>GridLogic\<close> (\<open>grid_logic\<close>: null store,
    the four branches in source order as \<open>nav_frame\<close>, activation as
    \<open>grid_activate\<close>), runs of frames (\<open>grid_run\<close>) and the reachable stores
    (\<open>reachable\<close>, an inductive step relation); invariants by rule induction,
    the invariant that the window never starts past two rows before the
    catalog's end, dispatch of the masks, reachability of every entry by
    Right, return to the first row by Up,
    and recovery by \<open>KEY_LEFT\<close> of a selection that a shrinking catalog left
    past its end (\<open>view_consistent\<close> of \<open>Grid_State\<close> is the part of the
    invariant that survives the shrink).
  \<^item> \<open>Grid_Draw\<close>: \<open>DrawGrid\<close> (lines 30-86) as the list of draw calls it
    issues (\<open>draw_grid\<close>, the loop \<open>draw_loop\<close>, its body \<open>draw_cell\<close>,
    the table \<open>GridBoxes\<close>, the \<open>uint8_t\<close> centring offset
    \<open>icon_offset\<close>); an out-of-range \<open>std::vector\<close> read is \<open>None\<close>.
    Here the store's fields are read as unbounded integers; the lemmas on
    this renderer (cells drawn, icons, highlight, marks, negative rows, empty
    catalog) are the steps of the claims of \<open>Grid_Draw32\<close>. Claims: the
    \<open>uint8_t\<close> offset centres icons of at most 48 pixels, which are drawn
    strictly inside their box, and wraps for every width from 50 to 561.
  \<^item> \<open>Grid_Draw32\<close>: \<open>DrawGrid\<close> with the loop bounds
    \<open>5 * ScreenIndx\<close> and \<open>15 + 5 * ScreenIndx\<close> of line 66 computed at
    32 bits from the word store (\<open>draw_grid32\<close>). It equals \<open>draw_grid\<close>
    of the store's signed reading exactly while no bound wraps
    (\<open>-429496729 \<le> ScreenIndx \<le> 429496726\<close>), and the renderer's claims are
    stated for that range: no out-of-range read for \<open>ScreenIndx \<ge> 0\<close>, the
    icons and update marks of the visible entries, exactly one highlight box in
    a valid state, an out-of-range read for every negative \<open>ScreenIndx\<close>, and
    the empty cases of spec section 7. For \<open>429496727 \<le> ScreenIndx \<le>
    429496729\<close> the upper bound wraps and the frame shows no cell.
  \<^item> \<open>Grid_Draw_Loop\<close>: the \<open>for\<close> loop of line 66 as the source writes it,
    run by \<open>while_option\<close> (\<open>draw_cond\<close>, \<open>draw_step\<close>, \<open>draw_for\<close>);
    it terminates from every start, after exactly as many iterations as there
    are visible entries; a lemma shows it issues the same calls as
    \<open>draw_loop\<close>, on which the renderer is built.
  \<^item> \<open>Grid_Word\<close>: the four directional branches and the frame at the
    machine's width (\<open>key_down32\<close> \<open>\<dots>\<close> \<open>nav_frame32\<close> on the record
    \<open>store32\<close> of \<open>32 word\<close>s): signed comparisons \<open><s\<close>, wrapping
    \<open>+\<close>/\<open>-\<close>, and C's \<open>/\<close> and \<open>%\<close> as \<open>c_div\<close>/\<open>c_mod\<close>. Through the
    reading \<open>abs32\<close> it equals the \<open>int\<close> model in every valid state of a
    catalog of at most \<open>2^31 - 7\<close> entries, and every word state reachable
    from the start is one the \<open>int\<close> model reaches (a simulation by rule
    induction); in every valid state whose selection lies within 4 of
    \<open>INT_MAX\<close> \<open>KEY_DOWN\<close> overflows and selects a negative entry.
  \<^item> This theory: the properties that span navigation and rendering: in
    every reachable state the frame highlights the selected cell and draws the
    selected entry's icon there (also for the 32-bit model, through
    \<open>abs32\<close> and the simulation of \<open>Grid_Word\<close>); a catalog that shrinks
    below the selection leaves it invisible.

  \<^emph>\<open>Modelling choices.\<close> C \<open>int\<close> arithmetic is \<open>int\<close> in the
  navigation and rendering models of \<open>Grid_Nav\<close>, \<open>Grid_Logic\<close> and
  \<open>Grid_Draw\<close>, and 32-bit in \<open>Grid_Word\<close> and \<open>Grid_Draw32\<close>, which
  bound where the two agree. Navigation computes at most \<open>GetEntry() + 5\<close>
  and agrees for every catalog of at most \<open>2^31 - 7\<close> entries (C27, C28).
  Rendering computes \<open>5 * ScreenIndx\<close> and \<open>15 + 5 * ScreenIndx\<close> and agrees
  for \<open>ScreenIndx \<le> 429496726\<close> (C32); in reachable states
  \<open>5 * ScreenIndx + 10 < entries.size()\<close> or \<open>ScreenIndx = 0\<close> (C37), so this
  holds for every catalog of at most \<open>2^31 - 5\<close> entries. Both bounds lie
  far beyond what fits in the console's memory. The claims on the whole frame
  (C25, C26) are stated on the integer models; C35 states the composition at
  the machine's width. The size is a \<open>32 word\<close> in both, so that the unsigned comparison
  \<open>entries.size() > 15\<close> and the casts are the machine's, and \<open>uint8_t\<close>
  offsets are \<open>8 word\<close>. Signed overflow, undefined in C, wraps in the word
  model. The only loop, the draw loop, is a \<^theory_text>\<open>function\<close> that
  terminates by the measure \<open>hi - i2\<close> (at most fifteen iterations), and
  again a \<open>while_option\<close> whose result is proved to exist; no fuel is
  needed. Each frame's key words are arbitrary, so the reachable stores cover
  every input sequence.

  \<^emph>\<open>Status.\<close> The code under src/ is modelled in full (see below): each
  branch of \<open>GridLogic\<close>, at \<open>int\<close> and at 32-bit width, and all of
  \<open>DrawGrid\<close>, as a recursive and as a literal loop. Further work would add
  properties of the same definitions, for instance the pixel coordinates at
  the width of citro2d's \<open>float\<close> parameters (exact here, since every
  coordinate is below 2^24).

  \<^emph>\<open>Not modelled.\<close> Every statement of grid.cpp is mapped (lines 1-29,
  49-55 and 87-101 are the licence, includes and comments). overlay.hpp
  (lines 34-39) only declares \<open>SelectStore\<close>, \<open>SelectLanguage\<close>,
  \<open>ShowCredits\<close> and \<open>SelectDir\<close>; their code is outside the sources and
  the spec places them out of scope, so there is nothing to translate. Drawing
  primitives, textures, HID polling and the fetch mode that \<open>KEY_A\<close> hands
  over to are external collaborators, seen only as the calls the grid makes.
\<close>

section \<open>Navigation and rendering agree\<close>

subsection \<open>Shared lemmas\<close>

lemma reachable_render:
  assumes "reachable (size_of_list es) s" and "es \<noteq> []" and "length es < 2 ^ 31"
  shows "\<exists>cmds. draw_grid u c (Some s) es = Some cmds \<and>
           filter is_highlight cmds =
             [DrawBox (pos_x (GridBoxes ! nat (box s))) (pos_y (GridBoxes ! nat (box s))) 50 50 True] \<and>
           (\<forall>ent. es ! nat (entry s) = Some ent \<longrightarrow>
              DrawIcon (nat (entry s)) (pos_x (GridBoxes ! nat (box s)) + 1 + uint (icon_offset (icon_w ent)))
                (pos_y (GridBoxes ! nat (box s)) + 1 + uint (icon_offset (icon_h ent))) \<in> set cmds)"
proof -
  let ?R = "[nat (page_offset s) ..< min (nat (page_offset s) + 15) (length es)]"
  let ?f = "\<lambda>k. cell_cmds (box s) es (int k - 5 * screen_indx s) k"
  from assms(1) have inv: "grid_inv (size_of_list es) s" by (simp add: reachable_inv_small)
  then have row: "0 \<le> screen_indx s" by (rule grid_inv_row_nonneg)
  have eq: "draw_grid u c (Some s) es =
      Some ((if u \<and> c then DrawStoreImg 0 26 else DrawRect 0 26 400 214) # concat (map ?f ?R))"
    using row assms(3) by (simp add: draw_grid_eq visible_range)
  from grid_inv_selected_visible [OF inv assms(2,3)]
  have sel: "nat (entry s) \<in> set ?R" and cell: "int (nat (entry s)) - 5 * screen_indx s = box s"
    by simp_all
  have icon: "DrawIcon (nat (entry s)) (pos_x (GridBoxes ! nat (box s)) + 1 + uint (icon_offset (icon_w ent)))
       (pos_y (GridBoxes ! nat (box s)) + 1 + uint (icon_offset (icon_h ent))) \<in> set (concat (map ?f ?R))"
    if "es ! nat (entry s) = Some ent" for ent
  proof -
    have "DrawIcon (nat (entry s)) (pos_x (GridBoxes ! nat (box s)) + 1 + uint (icon_offset (icon_w ent)))
        (pos_y (GridBoxes ! nat (box s)) + 1 + uint (icon_offset (icon_h ent))) \<in> set (?f (nat (entry s)))"
      using cell that by (simp add: cell_cmds_def Let_def)
    with sel show ?thesis unfolding set_concat set_map by blast
  qed
  show ?thesis
    using eq icon highlight_of_visible [OF inv assms(2,3)] by simp
qed

text \<open>
  C25. What \<open>GridLogic\<close> selects is what \<open>DrawGrid\<close> shows: in every store
  reachable by frames of \<open>GridLogic\<close> on a non-empty catalog, the next frame is
  drawn without an out-of-range read, it draws exactly one highlight box, at
  \<open>GridBoxes[Box]\<close>, and, when the selected entry is not null, it draws that
  entry's icon at the highlighted cell.
\<close>

theorem render_follows_navigation:
  assumes "reachable (size_of_list es) s" and "es \<noteq> []" and "length es < 2 ^ 31"
  shows "\<exists>cmds. draw_grid u c (Some s) es = Some cmds \<and>
           filter is_highlight cmds =
             [DrawBox (pos_x (GridBoxes ! nat (box s))) (pos_y (GridBoxes ! nat (box s))) 50 50 True] \<and>
           (\<forall>ent. es ! nat (entry s) = Some ent \<longrightarrow>
              DrawIcon (nat (entry s)) (pos_x (GridBoxes ! nat (box s)) + 1 + uint (icon_offset (icon_w ent)))
                (pos_y (GridBoxes ! nat (box s)) + 1 + uint (icon_offset (icon_h ent))) \<in> set cmds)"
  using assms by (rule reachable_render)

theorem render_follows_navigation_witness:
  "reachable (size_of_list (replicate 20 (Some \<lparr>icon_w = 48, icon_h = 48, update_avl = False\<rparr>))) \<lparr>box = 10, entry = 10, screen_indx = 0\<rparr> \<and>
   replicate 20 (Some \<lparr>icon_w = 48, icon_h = 48, update_avl = False\<rparr>) \<noteq> [] \<and> length (replicate 20 (Some \<lparr>icon_w = 48, icon_h = 48, update_avl = False\<rparr>)) < 2 ^ 31 \<and>
   (\<exists>cmds. draw_grid False False (Some \<lparr>box = 10, entry = 10, screen_indx = 0\<rparr>) (replicate 20 (Some \<lparr>icon_w = 48, icon_h = 48, update_avl = False\<rparr>)) = Some cmds \<and>
      filter is_highlight cmds = [DrawBox 25 165 50 50 True] \<and> DrawIcon 10 26 166 \<in> set cmds)"
proof -
  let ?es = "replicate 20 (Some \<lparr>icon_w = 48, icon_h = 48, update_avl = False\<rparr>)"
  have r0: "reachable (size_of_list ?es) init_store"
    by (rule reachable.start) (simp add: size_of_list_def int_of_size_def)
  have r: "reachable (size_of_list ?es)
      (nav_frame (key_mask KeyDown) (size_of_list ?es) (nav_frame (key_mask KeyDown) (size_of_list ?es) init_store))"
    by (rule reachable.frame, rule reachable.frame, rule r0)
  have st: "nav_frame (key_mask KeyDown) (size_of_list ?es) (nav_frame (key_mask KeyDown) (size_of_list ?es) init_store) =
      \<lparr>box = 10, entry = 10, screen_indx = 0\<rparr>"
    by (simp add: nav_frame_def held_mask key_down_def init_store_def size_of_list_def int_of_size_def)
  have "uint (icon_offset 48) = 0" by (simp add: icon_offset_def)
  with st render_follows_navigation [OF r, of False False] r show ?thesis
    by (simp add: GridBoxes_def)
qed

section \<open>A catalog that shrinks below the selection\<close>

text \<open>
  C26. \<open>GridLogic\<close> reads \<open>entries.size()\<close> afresh but never clamps the
  stored selection. When the catalog has shrunk to at most the selected index,
  \<open>KEY_RIGHT\<close> is a no-op and \<open>DrawGrid\<close> draws no highlight box at all: the
  selection is invisible until Left or Up brings it back into range.
\<close>

theorem stale_selection_invisible:
  assumes "0 \<le> screen_indx s" and "0 \<le> box s" and "entry s = 5 * screen_indx s + box s"
    and "int (length es) \<le> entry s" and "length es < 2 ^ 31"
  shows "key_right (size_of_list es) s = s \<and>
         map_option (filter is_highlight) (draw_grid u c (Some s) es) = Some []"
proof -
  have none: "filter is_highlight (concat (map (\<lambda>k. cell_cmds (box s) es (int k - 5 * screen_indx s) k) ks)) = []"
    if "\<forall>k \<in> set ks. k < length es" for ks
    using that assms(3,4) by (induction ks) (auto simp: highlights_cell)
  have "key_right (size_of_list es) s = s"
    using assms(4,5) by (simp add: key_right_def int_of_size_list)
  moreover have "map_option (filter is_highlight) (draw_grid u c (Some s) es) = Some []"
    using assms(1,5) none by (simp add: draw_grid_eq visible_range)
  ultimately show ?thesis by simp
qed

theorem stale_selection_invisible_witness:
  "0 \<le> screen_indx \<lparr>box = 3, entry = 8, screen_indx = 1\<rparr> \<and> 0 \<le> box \<lparr>box = 3, entry = 8, screen_indx = 1\<rparr> \<and> entry \<lparr>box = 3, entry = 8, screen_indx = 1\<rparr> = 5 * screen_indx \<lparr>box = 3, entry = 8, screen_indx = 1\<rparr> + box \<lparr>box = 3, entry = 8, screen_indx = 1\<rparr> \<and>
   int (length (replicate 4 (Some \<lparr>icon_w = 48, icon_h = 48, update_avl = False\<rparr>))) \<le> entry \<lparr>box = 3, entry = 8, screen_indx = 1\<rparr> \<and> length (replicate 4 (Some \<lparr>icon_w = 48, icon_h = 48, update_avl = False\<rparr>)) < 2 ^ 31 \<and>
   key_right (size_of_list (replicate 4 (Some \<lparr>icon_w = 48, icon_h = 48, update_avl = False\<rparr>))) \<lparr>box = 3, entry = 8, screen_indx = 1\<rparr> = \<lparr>box = 3, entry = 8, screen_indx = 1\<rparr> \<and>
   map_option (filter is_highlight) (draw_grid False False (Some \<lparr>box = 3, entry = 8, screen_indx = 1\<rparr>) (replicate 4 (Some \<lparr>icon_w = 48, icon_h = 48, update_avl = False\<rparr>))) = Some []"
  using stale_selection_invisible [of "\<lparr>box = 3, entry = 8, screen_indx = 1\<rparr>" "replicate 4 (Some \<lparr>icon_w = 48, icon_h = 48, update_avl = False\<rparr>)" False False] by simp

section \<open>The machine-width frame, drawn\<close>

text \<open>
  C35. The composition at the machine's width: in every store the 32-bit
  \<open>GridLogic\<close> reaches, frame by frame from the start state, on a non-empty
  catalog of at most \<open>2^31 - 7\<close> entries, \<open>DrawGrid\<close> (reading the fields as
  the \<open>int\<close>s \<open>GetBox\<close>, \<open>GetEntry\<close>, \<open>GetScreenIndx\<close> return) draws the frame
  without an out-of-range read, with exactly one highlight box, at
  \<open>GridBoxes[Box]\<close>, and the selected entry's icon in that cell.
\<close>

theorem render_follows_navigation32:
  assumes "reachable32 (size_of_list es) s" and "es \<noteq> []" and "length es \<le> 2147483641"
  shows "\<exists>cmds. draw_grid u c (Some (abs32 s)) es = Some cmds \<and>
           filter is_highlight cmds =
             [DrawBox (pos_x (GridBoxes ! nat (sint (box32 s)))) (pos_y (GridBoxes ! nat (sint (box32 s)))) 50 50 True] \<and>
           (\<forall>ent. es ! nat (sint (entry32 s)) = Some ent \<longrightarrow>
              DrawIcon (nat (sint (entry32 s))) (pos_x (GridBoxes ! nat (sint (box32 s))) + 1 + uint (icon_offset (icon_w ent)))
                (pos_y (GridBoxes ! nat (sint (box32 s))) + 1 + uint (icon_offset (icon_h ent))) \<in> set cmds)"
proof -
  from assms(3) have len: "length es < 2 ^ 31" by simp
  with assms(3) have "int_of_size (size_of_list es) \<le> 2147483641" by (simp add: int_of_size_list)
  with assms(1) have "reachable (size_of_list es) (abs32 s)" by (rule reachable32_sim)
  from reachable_render [OF this assms(2) len, of u c] show ?thesis by (simp add: abs32_def)
qed

theorem render_follows_navigation32_witness:
  "reachable32 (size_of_list (replicate 20 (Some \<lparr>icon_w = 48, icon_h = 48, update_avl = False\<rparr>)))
     (nav_frame32 (key_mask KeyRight) (size_of_list (replicate 20 (Some \<lparr>icon_w = 48, icon_h = 48, update_avl = False\<rparr>))) init_store32) \<and>
   replicate 20 (Some \<lparr>icon_w = 48, icon_h = 48, update_avl = False\<rparr>) \<noteq> [] \<and>
   length (replicate 20 (Some \<lparr>icon_w = 48, icon_h = 48, update_avl = False\<rparr>)) \<le> 2147483641 \<and>
   (\<exists>cmds. draw_grid False False (Some \<lparr>box = 1, entry = 1, screen_indx = 0\<rparr>) (replicate 20 (Some \<lparr>icon_w = 48, icon_h = 48, update_avl = False\<rparr>)) = Some cmds \<and>
      filter is_highlight cmds = [DrawBox 100 45 50 50 True] \<and> DrawIcon 1 101 46 \<in> set cmds)"
proof -
  let ?es = "replicate 20 (Some \<lparr>icon_w = 48, icon_h = 48, update_avl = False\<rparr>)"
  have r: "reachable32 (size_of_list ?es) (nav_frame32 (key_mask KeyRight) (size_of_list ?es) init_store32)"
    by (intro reachable32.frame32 reachable32.start32) (simp add: size_of_list_def int_of_size_def)
  have st: "nav_frame32 (key_mask KeyRight) (size_of_list ?es) init_store32 = \<lparr>box32 = 1, entry32 = 1, screen32 = 0\<rparr>"
    by (simp add: nav_frame32_def held_mask key_right32_def init_store32_def size_of_list_def
        word_sless_alt)
  have "uint (icon_offset 48) = 0" by (simp add: icon_offset_def)
  with r render_follows_navigation32 [OF r, of False False] show ?thesis
    unfolding st by (simp add: GridBoxes_def abs32_def)
qed

end
